theory Spec2Isabelle
  imports Main
begin

section \<open>JavaScript values used by the route handlers\<close>

text \<open>
  Route parameters reach the handlers through \<open>parseInt\<close>, whose result is an integer or
  \<open>NaN\<close>. A comparison with \<open>NaN\<close> is false, and reading an array at \<open>NaN\<close>, at a
  negative index or past the end gives \<open>undefined\<close>.
\<close>

datatype number = NaN | Finite int

datatype 'a ref = Null | Undefined | Obj 'a

datatype js_error = TypeError

text \<open>
  A field of the JSON request body. \<open>JNonNumeric\<close> stands for the truthy values whose
  conversion to a number is \<open>NaN\<close>: a plain object such as \<open>{}\<close>, or a string that is not
  a numeric literal such as \<open>"abc"\<close>. Numeric strings, fractional numbers and arrays are
  not represented.
\<close>

datatype jsvalue = JUndefined | JNull | JBool bool | JNumber int | JNonNumeric

fun truthy_value :: "jsvalue \<Rightarrow> bool" where
  "truthy_value JUndefined = False"
| "truthy_value JNull = False"
| "truthy_value (JBool b) = b"
| "truthy_value (JNumber n) = (n \<noteq> 0)"
| "truthy_value JNonNumeric = True"

fun toNumber :: "jsvalue \<Rightarrow> number" where
  "toNumber JUndefined = NaN"
| "toNumber JNull = Finite 0"
| "toNumber (JBool b) = Finite (if b then 1 else 0)"
| "toNumber (JNumber n) = Finite n"
| "toNumber JNonNumeric = NaN"

text \<open>\<open>v || d\<close> for a numeric default \<open>d\<close>.\<close>

definition or_default :: "jsvalue \<Rightarrow> int \<Rightarrow> jsvalue" where
  "or_default v d = (if truthy_value v then v else JNumber d)"

text \<open>\<open>Math.max\<close> and \<open>Math.min\<close>: \<open>NaN\<close> if either argument is \<open>NaN\<close>.\<close>

fun math_max :: "number \<Rightarrow> number \<Rightarrow> number" where
  "math_max (Finite a) (Finite b) = Finite (max a b)"
| "math_max _ _ = NaN"

fun math_min :: "number \<Rightarrow> number \<Rightarrow> number" where
  "math_min (Finite a) (Finite b) = Finite (min a b)"
| "math_min _ _ = NaN"

text \<open>\<open>Array.from({ length: n }, (_, i) => f(i))\<close>: the length \<open>NaN\<close> counts as 0.\<close>

fun toLength :: "number \<Rightarrow> nat" where
  "toLength NaN = 0"
| "toLength (Finite i) = nat i"

definition array_from :: "number \<Rightarrow> (nat \<Rightarrow> 'a) \<Rightarrow> 'a list" where
  "array_from n f = map f [0..<toLength n]"

text \<open>\<open>i >= xs.length\<close> and \<open>xs[i]\<close>.\<close>

fun js_ge :: "number \<Rightarrow> nat \<Rightarrow> bool" where
  "js_ge NaN n = False"
| "js_ge (Finite i) n = (int n \<le> i)"

fun js_index :: "'a list \<Rightarrow> number \<Rightarrow> 'a ref" where
  "js_index xs NaN = Undefined"
| "js_index xs (Finite i) =
     (if 0 \<le> i \<and> i < int (length xs) then Obj (xs ! nat i) else Undefined)"

text \<open>
  \<open>xs.splice(start, 1)\<close>: a negative start counts from the end, \<open>NaN\<close> counts as 0, and
  the start is clamped to the length.
\<close>

definition splice1 :: "'a list \<Rightarrow> number \<Rightarrow> 'a list" where
  "splice1 xs start =
     (let len = int (length xs);
          rel = (case start of NaN \<Rightarrow> 0 | Finite i \<Rightarrow> i);
          k = nat (if rel < 0 then max (len + rel) 0 else min rel len)
      in take k xs @ drop (Suc k) xs)"

text \<open>\<open>xs.findIndex(p)\<close>: the first position where \<open>p\<close> holds, or \<open>-1\<close>.\<close>

fun findIndex_from :: "('a \<Rightarrow> bool) \<Rightarrow> 'a list \<Rightarrow> int \<Rightarrow> int" where
  "findIndex_from p [] k = -1"
| "findIndex_from p (x # xs) k = (if p x then k else findIndex_from p xs (k + 1))"

definition findIndex :: "('a \<Rightarrow> bool) \<Rightarrow> 'a list \<Rightarrow> int" where
  "findIndex p xs = findIndex_from p xs 0"

text \<open>A JavaScript string that may be \<open>null\<close> or \<open>undefined\<close>; the empty string is falsy.\<close>

definition truthy :: "string option \<Rightarrow> bool" where
  "truthy r = (case r of None \<Rightarrow> False | Some s \<Rightarrow> s \<noteq> [])"

text \<open>The decimal digits of a number, as a template literal prints it.\<close>

fun show_nat :: "nat \<Rightarrow> string" where
  "show_nat n =
     (if n < 10 then [char_of (48 + n)]
      else show_nat (n div 10) @ [char_of (48 + n mod 10)])"

declare show_nat.simps [simp del]

section \<open>Data model (models/Series.js)\<close>

datatype media_type = image | video

text \<open>
  The plain object that the upload route builds for a file. It has the fields of a media
  subdocument and no \<open>_id\<close>; it comes first so that the field names below read the
  subdocument.
\<close>

record media_object =
  filename :: "string option"
  originalName :: "string option"
  type :: "media_type option"
  url :: "string option"

text \<open>A media subdocument; \<open>m_id\<close> is \<open>_id.toString()\<close>.\<close>

record media_doc =
  m_id :: string
  filename :: "string option"
  originalName :: "string option"
  type :: "media_type option"
  url :: "string option"

record episode =
  title :: "string option"
  thumbnail :: "string option"
  description :: "string option"
  music :: "string option"
  musicOriginalName :: "string option"
  media :: "media_doc list"

record season =
  title :: "string option"
  episodes :: "episode list"

record series =
  title :: "string option"
  description :: "string option"
  thumbnail :: "string option"
  seasons :: "season list"

section \<open>Effects and responses\<close>

text \<open>
  A handler returns its HTTP response and the trace of its effects, in the order the
  handler awaits them: each call of \<open>deleteFromS3\<close> with its key, and \<open>series.save()\<close>
  with the document written. A handler whose trace has no \<open>Save\<close> leaves the stored
  document as it was. An exception inside a handler is caught by its \<open>try/catch\<close> and
  answered with status 500; in every handler below it can only arise before the first
  effect. Failures of the database are not modelled.
\<close>

datatype event = DeleteFromS3 string | Save series

record uploaded_file =
  key :: string
  originalname :: string

datatype body =
    Error string
  | Thrown js_error
  | Success
  | SuccessSeries series
  | SuccessFile string string
  | SuccessFiles "media_object list"

datatype response = Json nat body

type_synonym outcome = "response \<times> event list"

text \<open>
  Modelled from the spec: \<open>deleteFromS3\<close> of config/s3.js, which is not part of the
  sources, issues a best-effort delete; a failure is logged and not propagated. A call
  is therefore an entry of the trace and never an exception. \<open>getKeyFromUrl\<close> and
  \<open>getS3Url\<close>, of the same file, are parameters of the functions below; a result
  \<open>None\<close> of \<open>getKeyFromUrl\<close> is its \<open>null\<close>.
\<close>

type_synonym key_of_url = "string option \<Rightarrow> string option"

text \<open>
  Modelled from the spec: \<open>getKeyFromUrl\<close> of config/s3.js. The storage key is what
  remains of the reference after the blob store's URL prefix; a reference that does not
  start with the prefix has no key.
\<close>

definition getKeyFromUrl_spec :: "string \<Rightarrow> key_of_url" where
  "getKeyFromUrl_spec prefix r =
     (case r of
        None \<Rightarrow> None
      | Some u \<Rightarrow>
          if take (length prefix) u = prefix then Some (drop (length prefix) u) else None)"

text \<open>Modelled from the spec: \<open>getS3Url\<close> of config/s3.js puts the prefix before the key.\<close>

definition getS3Url_spec :: "string \<Rightarrow> string \<Rightarrow> string" where
  "getS3Url_spec prefix k = prefix @ k"

section \<open>Helpers (routes/api.js)\<close>

definition getEpisode :: "series \<Rightarrow> number \<Rightarrow> number \<Rightarrow> js_error + episode ref" where
  "getEpisode series seasonIndex episodeIndex =
     (if js_ge seasonIndex (length (seasons series)) then Inr Null
      else case js_index (seasons series) seasonIndex of
             Obj season \<Rightarrow>
               if js_ge episodeIndex (length (episodes season)) then Inr Null
               else Inr (js_index (episodes season) episodeIndex)
           | _ \<Rightarrow> Inl TypeError)"

text \<open>\<open>if (key) await deleteFromS3(key)\<close>: the keys passed to \<open>deleteFromS3\<close>.\<close>

definition delete_if_key :: "string option \<Rightarrow> string list" where
  "delete_if_key k = (case k of None \<Rightarrow> [] | Some s \<Rightarrow> if s \<noteq> [] then [s] else [])"

definition deleteEpisodeAssets :: "key_of_url \<Rightarrow> episode \<Rightarrow> string list" where
  "deleteEpisodeAssets getKeyFromUrl episode =
     (if truthy (episode.thumbnail episode)
      then delete_if_key (getKeyFromUrl (episode.thumbnail episode)) else [])
     @ (if truthy (music episode) then delete_if_key (getKeyFromUrl (music episode)) else [])
     @ concat (map (\<lambda>m. delete_if_key (getKeyFromUrl (url m))) (media episode))"

definition deleteSeasonAssets :: "key_of_url \<Rightarrow> season \<Rightarrow> string list" where
  "deleteSeasonAssets getKeyFromUrl season =
     concat (map (deleteEpisodeAssets getKeyFromUrl) (episodes season))"

text \<open>
  The episode that \<open>getEpisode\<close> returns is a reference into the document: an assignment
  to one of its fields changes the document at that position.
\<close>

definition index_of :: "number \<Rightarrow> nat" where
  "index_of n = (case n of NaN \<Rightarrow> 0 | Finite i \<Rightarrow> nat i)"

definition set_season :: "series \<Rightarrow> number \<Rightarrow> season \<Rightarrow> series" where
  "set_season series seasonIndex season' =
     series\<lparr>seasons := (seasons series)[index_of seasonIndex := season']\<rparr>"

definition set_episode :: "series \<Rightarrow> number \<Rightarrow> number \<Rightarrow> episode \<Rightarrow> series" where
  "set_episode series seasonIndex episodeIndex episode' =
     (let season = seasons series ! index_of seasonIndex
      in set_season series seasonIndex
           (season\<lparr>episodes := (episodes season)[index_of episodeIndex := episode']\<rparr>))"

definition new_episode :: "nat \<Rightarrow> episode" where
  "new_episode i =
     \<lparr>episode.title = Some (''Episode '' @ show_nat (i + 1)), thumbnail = None,
      description = Some [], music = None, musicOriginalName = None, media = []\<rparr>"

section \<open>Season and episode routes\<close>

text \<open>
  Each handler takes what \<open>Series.findById\<close> found (\<open>None\<close> when there is no such
  series) and the parsed request.
\<close>

text \<open>POST /series/:seriesId/seasons\<close>

definition post_season :: "series option \<Rightarrow> jsvalue \<Rightarrow> outcome" where
  "post_season found episodeCount =
     (let numEpisodes = math_min (math_max (toNumber (or_default episodeCount 1)) (Finite 1)) (Finite 10)
      in case found of
           None \<Rightarrow> (Json 404 (Error ''Series not found''), [])
         | Some series \<Rightarrow>
             if length (seasons series) \<ge> 10
             then (Json 400 (Error ''Maximum 10 seasons allowed''), [])
             else
               let seasonNumber = length (seasons series) + 1;
                   series' = series\<lparr>seasons := seasons series @
                     [\<lparr>season.title = Some (''Season '' @ show_nat seasonNumber),
                       episodes = array_from numEpisodes new_episode\<rparr>]\<rparr>
               in (Json 200 (SuccessSeries series'), [Save series']))"

text \<open>
  DELETE /series/:seriesId/seasons/:seasonIndex. When \<open>series.seasons[seasonIndex]\<close> is
  \<open>undefined\<close>, \<open>deleteSeasonAssets\<close> throws on reading its \<open>episodes\<close>.
\<close>

definition delete_season :: "key_of_url \<Rightarrow> series option \<Rightarrow> number \<Rightarrow> outcome" where
  "delete_season getKeyFromUrl found seasonIndex =
     (case found of
        None \<Rightarrow> (Json 404 (Error ''Series not found''), [])
      | Some series \<Rightarrow>
          if js_ge seasonIndex (length (seasons series))
          then (Json 400 (Error ''Invalid season index''), [])
          else if length (seasons series) \<le> 1
          then (Json 400 (Error ''Cannot delete the last season''), [])
          else (case js_index (seasons series) seasonIndex of
                  Obj season \<Rightarrow>
                    let series' = series\<lparr>seasons := splice1 (seasons series) seasonIndex\<rparr>
                    in (Json 200 (SuccessSeries series'),
                        map DeleteFromS3 (deleteSeasonAssets getKeyFromUrl season) @ [Save series'])
                | _ \<Rightarrow> (Json 500 (Thrown TypeError), [])))"

text \<open>
  POST /series/:seriesId/seasons/:seasonIndex/episodes. When the season is \<open>undefined\<close>,
  reading \<open>season.episodes\<close> throws.
\<close>

definition post_episode :: "series option \<Rightarrow> number \<Rightarrow> outcome" where
  "post_episode found seasonIndex =
     (case found of
        None \<Rightarrow> (Json 404 (Error ''Series not found''), [])
      | Some series \<Rightarrow>
          if js_ge seasonIndex (length (seasons series))
          then (Json 400 (Error ''Invalid season index''), [])
          else (case js_index (seasons series) seasonIndex of
                 Obj season \<Rightarrow>
                   if length (episodes season) \<ge> 10
                   then (Json 400 (Error ''Maximum 10 episodes per season''), [])
                   else
                     let series' = set_season series seasonIndex
                           (season\<lparr>episodes := episodes season @
                              [new_episode (length (episodes season))]\<rparr>)
                     in (Json 200 (SuccessSeries series'), [Save series'])
               | _ \<Rightarrow> (Json 500 (Thrown TypeError), [])))"

text \<open>
  DELETE /series/:seriesId/seasons/:seasonIndex/episodes/:episodeIndex. When
  \<open>season.episodes[episodeIndex]\<close> is \<open>undefined\<close>, \<open>deleteEpisodeAssets\<close> throws on
  reading its \<open>thumbnail\<close>.
\<close>

definition delete_episode :: "key_of_url \<Rightarrow> series option \<Rightarrow> number \<Rightarrow> number \<Rightarrow> outcome" where
  "delete_episode getKeyFromUrl found seasonIndex episodeIndex =
     (case found of
        None \<Rightarrow> (Json 404 (Error ''Series not found''), [])
      | Some series \<Rightarrow>
          if js_ge seasonIndex (length (seasons series))
          then (Json 400 (Error ''Invalid season index''), [])
          else (case js_index (seasons series) seasonIndex of
                 Obj season \<Rightarrow>
                   if js_ge episodeIndex (length (episodes season))
                   then (Json 400 (Error ''Invalid episode index''), [])
                   else if length (episodes season) \<le> 1
                   then (Json 400 (Error ''Cannot delete the last episode in a season''), [])
                   else (case js_index (episodes season) episodeIndex of
                           Obj episode \<Rightarrow>
                             let series' = set_season series seasonIndex
                                   (season\<lparr>episodes := splice1 (episodes season) episodeIndex\<rparr>)
                             in (Json 200 (SuccessSeries series'),
                                 map DeleteFromS3 (deleteEpisodeAssets getKeyFromUrl episode)
                                 @ [Save series'])
                         | _ \<Rightarrow> (Json 500 (Thrown TypeError), []))
               | _ \<Rightarrow> (Json 500 (Thrown TypeError), [])))"

section \<open>Upload, delete and reorder routes\<close>

text \<open>A falsy result of \<open>getEpisode\<close> (\<open>null\<close> or \<open>undefined\<close>) is answered with status 400.\<close>

definition invalid_index :: outcome where
  "invalid_index = (Json 400 (Error ''Invalid season or episode index''), [])"

text \<open>POST /series/:seriesId/upload/thumbnail/:seasonIndex/:episodeIndex\<close>

definition post_upload_thumbnail ::
  "key_of_url \<Rightarrow> (string \<Rightarrow> string) \<Rightarrow> series option \<Rightarrow> number \<Rightarrow> number \<Rightarrow>
   uploaded_file option \<Rightarrow> outcome" where
  "post_upload_thumbnail getKeyFromUrl getS3Url found seasonIndex episodeIndex file =
     (case file of
        None \<Rightarrow> (Json 400 (Error ''No file uploaded''), [])
      | Some f \<Rightarrow>
     (case found of
        None \<Rightarrow> (Json 404 (Error ''Series not found''), [])
      | Some series \<Rightarrow>
     (case getEpisode series seasonIndex episodeIndex of
        Inl e \<Rightarrow> (Json 500 (Thrown e), [])
      | Inr (Obj episode) \<Rightarrow>
          let deleted = (if truthy (episode.thumbnail episode)
                         then delete_if_key (getKeyFromUrl (episode.thumbnail episode)) else []);
              s3Url = getS3Url (key f);
              series' = set_episode series seasonIndex episodeIndex
                          (episode\<lparr>episode.thumbnail := Some s3Url\<rparr>)
          in (Json 200 (SuccessFile (key f) s3Url), map DeleteFromS3 deleted @ [Save series'])
      | Inr _ \<Rightarrow> invalid_index)))"

text \<open>
  Modelled from the spec: the \<open>_id\<close> of a media subdocument is assigned by the database
  layer when the item is pushed (\<open>mediaSchema\<close> has \<open>_id: true\<close>), and an id is never
  used again. The model numbers the ids in the order of their issue: the id issued after
  \<open>n\<close> others is the decimal string of \<open>n\<close>, and the state of the database layer is the
  number of ids issued so far.
\<close>

definition objectId :: "nat \<Rightarrow> string" where
  "objectId n = show_nat n"

definition subdocument :: "string \<Rightarrow> media_object \<Rightarrow> media_doc" where
  "subdocument oid m =
     \<lparr>m_id = oid, filename = media_object.filename m,
      originalName = media_object.originalName m, type = media_object.type m,
      url = media_object.url m\<rparr>"

text \<open>\<open>episode.media.push(...newMedia)\<close>: each object becomes a subdocument with the next id.\<close>

definition pushed :: "nat \<Rightarrow> media_object list \<Rightarrow> media_doc list" where
  "pushed issued new =
     map (\<lambda>p. subdocument (objectId (fst p)) (snd p)) (zip [issued..<issued + length new] new)"

text \<open>
  POST /series/:seriesId/upload/media/:seasonIndex/:episodeIndex. \<open>isVideo\<close> is the outcome
  of the test of a file's extension. The handler takes the number of ids issued so far
  and returns, next to its outcome, the number issued after it.
\<close>

definition newMedia :: "(string \<Rightarrow> string) \<Rightarrow> (string \<Rightarrow> bool) \<Rightarrow> uploaded_file \<Rightarrow> media_object" where
  "newMedia getS3Url isVideo file =
     \<lparr>media_object.filename = Some (key file), originalName = Some (originalname file),
      type = Some (if isVideo (originalname file) then video else image),
      url = Some (getS3Url (key file))\<rparr>"

definition post_upload_media ::
  "(string \<Rightarrow> string) \<Rightarrow> (string \<Rightarrow> bool) \<Rightarrow> nat \<Rightarrow> series option \<Rightarrow> number \<Rightarrow> number \<Rightarrow>
   uploaded_file list \<Rightarrow> outcome \<times> nat" where
  "post_upload_media getS3Url isVideo issued found seasonIndex episodeIndex files =
     (if files = [] then ((Json 400 (Error ''No files uploaded''), []), issued)
      else
     (case found of
        None \<Rightarrow> ((Json 404 (Error ''Series not found''), []), issued)
      | Some series \<Rightarrow>
     (case getEpisode series seasonIndex episodeIndex of
        Inl e \<Rightarrow> ((Json 500 (Thrown e), []), issued)
      | Inr (Obj episode) \<Rightarrow>
          let new = map (newMedia getS3Url isVideo) files;
              series' = set_episode series seasonIndex episodeIndex
                          (episode\<lparr>media := media episode @ pushed issued new\<rparr>)
          in ((Json 200 (SuccessFiles new), [Save series']), issued + length new)
      | Inr _ \<Rightarrow> (invalid_index, issued))))"

text \<open>DELETE /series/:seriesId/music/:seasonIndex/:episodeIndex\<close>

definition delete_music :: "key_of_url \<Rightarrow> series option \<Rightarrow> number \<Rightarrow> number \<Rightarrow> outcome" where
  "delete_music getKeyFromUrl found seasonIndex episodeIndex =
     (case found of
        None \<Rightarrow> (Json 404 (Error ''Series not found''), [])
      | Some series \<Rightarrow>
     (case getEpisode series seasonIndex episodeIndex of
        Inl e \<Rightarrow> (Json 500 (Thrown e), [])
      | Inr (Obj episode) \<Rightarrow>
          let deleted = (if truthy (music episode)
                         then delete_if_key (getKeyFromUrl (music episode)) else []);
              series' = set_episode series seasonIndex episodeIndex
                          (episode\<lparr>music := None, musicOriginalName := None\<rparr>)
          in (Json 200 Success, map DeleteFromS3 deleted @ [Save series'])
      | Inr _ \<Rightarrow> invalid_index))"

text \<open>DELETE /series/:seriesId/media/:seasonIndex/:episodeIndex/:mediaId\<close>

definition delete_media ::
  "key_of_url \<Rightarrow> series option \<Rightarrow> number \<Rightarrow> number \<Rightarrow> string \<Rightarrow> outcome" where
  "delete_media getKeyFromUrl found seasonIndex episodeIndex mediaId =
     (case found of
        None \<Rightarrow> (Json 404 (Error ''Series not found''), [])
      | Some series \<Rightarrow>
     (case getEpisode series seasonIndex episodeIndex of
        Inl e \<Rightarrow> (Json 500 (Thrown e), [])
      | Inr (Obj episode) \<Rightarrow>
          let mediaIndex = findIndex (\<lambda>m. m_id m = mediaId) (media episode)
          in if mediaIndex = -1 then (Json 404 (Error ''Media not found''), [])
             else
               let m = media episode ! nat mediaIndex;
                   deleted = delete_if_key (getKeyFromUrl (url m));
                   series' = set_episode series seasonIndex episodeIndex
                               (episode\<lparr>media := splice1 (media episode) (Finite mediaIndex)\<rparr>)
               in (Json 200 Success, map DeleteFromS3 deleted @ [Save series'])
      | Inr _ \<Rightarrow> invalid_index))"

text \<open>
  PUT /series/:seriesId/reorder/:seasonIndex/:episodeIndex. \<open>mediaIds\<close> is \<open>None\<close> when
  the body has no array there, and \<open>mediaIds.map\<close> throws. An element that is not a
  string equals no id, as a string that names no media item does.
\<close>

definition reorderedMedia :: "episode \<Rightarrow> string list \<Rightarrow> media_doc list" where
  "reorderedMedia episode mediaIds =
     List.map_filter (\<lambda>i. find (\<lambda>m. m_id m = i) (media episode)) mediaIds"

definition put_reorder ::
  "series option \<Rightarrow> number \<Rightarrow> number \<Rightarrow> string list option \<Rightarrow> outcome" where
  "put_reorder found seasonIndex episodeIndex mediaIds =
     (case found of
        None \<Rightarrow> (Json 404 (Error ''Series not found''), [])
      | Some series \<Rightarrow>
     (case getEpisode series seasonIndex episodeIndex of
        Inl e \<Rightarrow> (Json 500 (Thrown e), [])
      | Inr (Obj episode) \<Rightarrow>
          (case mediaIds of
             None \<Rightarrow> (Json 500 (Thrown TypeError), [])
           | Some ids \<Rightarrow>
               let series' = set_episode series seasonIndex episodeIndex
                               (episode\<lparr>media := reorderedMedia episode ids\<rparr>)
               in (Json 200 Success, [Save series']))
      | Inr _ \<Rightarrow> invalid_index))"

section \<open>Reading a trace\<close>

fun deletes :: "event list \<Rightarrow> string list" where
  "deletes [] = []"
| "deletes (DeleteFromS3 k # es) = k # deletes es"
| "deletes (Save _ # es) = deletes es"

text \<open>The stored document after a handler has run on it.\<close>

fun stored :: "series \<Rightarrow> event list \<Rightarrow> series" where
  "stored s [] = s"
| "stored s (DeleteFromS3 _ # es) = stored s es"
| "stored s (Save s' # es) = stored s' es"

section \<open>Addressing and example documents\<close>

definition episode_at :: "series \<Rightarrow> nat \<Rightarrow> nat \<Rightarrow> episode" where
  "episode_at s i j = episodes (seasons s ! i) ! j"

definition demo_prefix :: string where
  "demo_prefix = ''https://b/''"

definition demo_episode :: episode where
  "demo_episode =
     \<lparr>episode.title = Some ''Episode 1'', thumbnail = Some ''https://b/t'',
      description = Some [], music = Some ''https://b/m'', musicOriginalName = Some ''m.mp3'',
      media = [\<lparr>m_id = ''a'', filename = Some ''x'', originalName = Some ''x.png'',
                type = Some image, url = Some ''https://b/x''\<rparr>]\<rparr>"

definition demo_series :: series where
  "demo_series =
     \<lparr>series.title = Some ''My Story'', description = Some [], thumbnail = None,
      seasons = [\<lparr>season.title = Some ''Season 1'', episodes = [demo_episode]\<rparr>]\<rparr>"

definition legacy_episode :: episode where
  "legacy_episode =
     \<lparr>episode.title = Some ''Episode 2'', thumbnail = Some ''/uploads/t.png'',
      description = Some [], music = None, musicOriginalName = None, media = []\<rparr>"

definition plain_episode :: episode where
  "plain_episode =
     \<lparr>episode.title = Some ''Episode 1'', thumbnail = None,
      description = Some [], music = None, musicOriginalName = None, media = []\<rparr>"

definition demo_series2 :: series where
  "demo_series2 =
     \<lparr>series.title = Some ''My Story'', description = Some [], thumbnail = None,
      seasons = [\<lparr>season.title = Some ''Season 1'', episodes = [demo_episode, legacy_episode]\<rparr>,
                 \<lparr>season.title = Some ''Season 2'', episodes = [plain_episode]\<rparr>]\<rparr>"

definition demo_file :: uploaded_file where
  "demo_file = \<lparr>key = ''n'', originalname = ''new.png''\<rparr>"

definition media_ids :: "series \<Rightarrow> nat \<Rightarrow> nat \<Rightarrow> string list" where
  "media_ids s i j = map m_id (media (episode_at s i j))"

text \<open>An episode with three media items, whose ids are the first three issued.\<close>

definition gallery_item :: "string \<Rightarrow> media_doc" where
  "gallery_item oid =
     \<lparr>m_id = oid, filename = Some (''k'' @ oid), originalName = Some (''f'' @ oid),
      type = Some image, url = Some (''https://b/k'' @ oid)\<rparr>"

definition gallery_episode :: episode where
  "gallery_episode =
     \<lparr>episode.title = Some ''Episode 1'', thumbnail = None, description = Some [],
      music = None, musicOriginalName = None,
      media = [gallery_item ''0'', gallery_item ''1'', gallery_item ''2'']\<rparr>"

definition gallery_series :: series where
  "gallery_series =
     \<lparr>series.title = Some ''Gallery'', description = Some [], thumbnail = None,
      seasons = [\<lparr>season.title = Some ''Season 1'', episodes = [gallery_episode]\<rparr>]\<rparr>"

definition gallery_upload :: "uploaded_file list" where
  "gallery_upload = [\<lparr>key = ''k3'', originalname = ''f3.png''\<rparr>,
                     \<lparr>key = ''k4'', originalname = ''f4.mp4''\<rparr>]"

text \<open>The media ids of an episode are ids that the database layer has issued.\<close>

definition ids_issued :: "nat \<Rightarrow> series \<Rightarrow> nat \<Rightarrow> nat \<Rightarrow> bool" where
  "ids_issued issued s i j = list_all (\<lambda>x. x \<in> set (map objectId [0..<issued])) (media_ids s i j)"

section \<open>Asset references, in the spec's words\<close>

text \<open>
  The spec's \<open>collectEpisodeAssets\<close>: the thumbnail if set, the music if set, and every
  media item's url, in that order. The code has no such function; \<open>deleteEpisodeAssets\<close>
  is compared with it.
\<close>

definition collectEpisodeAssets_spec :: "episode \<Rightarrow> string option list" where
  "collectEpisodeAssets_spec episode =
     (if truthy (episode.thumbnail episode) then [episode.thumbnail episode] else [])
     @ (if truthy (music episode) then [music episode] else [])
     @ map url (media episode)"

text \<open>The key of a reference, when one is derived and it is not empty.\<close>

definition storage_key :: "key_of_url \<Rightarrow> string option \<Rightarrow> string option" where
  "storage_key getKeyFromUrl r =
     (case getKeyFromUrl r of None \<Rightarrow> None | Some k \<Rightarrow> if k \<noteq> [] then Some k else None)"

section \<open>Sequences of season and episode requests\<close>

text \<open>
  A request to one of the four routes that add or remove a season or an episode, served
  on the stored document; the next request finds what the last one saved.
\<close>

datatype request =
    AddSeason jsvalue
  | RemoveSeason number
  | AddEpisode number
  | RemoveEpisode number number

fun serve :: "key_of_url \<Rightarrow> series \<Rightarrow> request \<Rightarrow> outcome" where
  "serve gk s (AddSeason episodeCount) = post_season (Some s) episodeCount"
| "serve gk s (RemoveSeason seasonIndex) = delete_season gk (Some s) seasonIndex"
| "serve gk s (AddEpisode seasonIndex) = post_episode (Some s) seasonIndex"
| "serve gk s (RemoveEpisode seasonIndex episodeIndex) =
     delete_episode gk (Some s) seasonIndex episodeIndex"

fun run_requests :: "key_of_url \<Rightarrow> series \<Rightarrow> request list \<Rightarrow> series" where
  "run_requests gk s [] = s"
| "run_requests gk s (r # rs) = run_requests gk (stored s (snd (serve gk s r))) rs"

text \<open>The bounds on the counts: 1 to 10 seasons, and 1 to 10 episodes in every season.\<close>

definition season_within_limits :: "season \<Rightarrow> bool" where
  "season_within_limits sn = (1 \<le> length (episodes sn) \<and> length (episodes sn) \<le> 10)"

definition within_limits :: "series \<Rightarrow> bool" where
  "within_limits s =
     (1 \<le> length (seasons s) \<and> length (seasons s) \<le> 10
      \<and> list_all season_within_limits (seasons s))"

text \<open>A request whose \<open>episodeCount\<close>, if it has one, does not convert to \<open>NaN\<close>.\<close>

fun numeric_count :: "request \<Rightarrow> bool" where
  "numeric_count (AddSeason episodeCount) = (episodeCount \<noteq> JNonNumeric)"
| "numeric_count _ = True"

section \<open>Properties of the helpers\<close>

lemma getEpisode_valid:
  "i < length (seasons s) \<Longrightarrow> j < length (episodes (seasons s ! i)) \<Longrightarrow>
   getEpisode s (Finite (int i)) (Finite (int j)) = Inr (Obj (episode_at s i j))"
  by (simp add: getEpisode_def episode_at_def)

lemma getEpisode_ObjD:
  assumes "getEpisode s si ei = Inr (Obj ep)"
  shows "\<exists>i j. si = Finite (int i) \<and> ei = Finite (int j) \<and> i < length (seasons s) \<and>
         j < length (episodes (seasons s ! i)) \<and> ep = episode_at s i j"
proof -
  from assms obtain a b where si: "si = Finite a" and ei: "ei = Finite b"
    and a: "0 \<le> a" "a < int (length (seasons s))"
    and b: "0 \<le> b" "b < int (length (episodes (seasons s ! nat a)))"
    and ep: "ep = episodes (seasons s ! nat a) ! nat b"
    by (cases si; cases ei) (auto simp: getEpisode_def split: if_splits ref.splits)
  have "si = Finite (int (nat a))" "ei = Finite (int (nat b))"
    using si ei a b by simp_all
  moreover have "nat a < length (seasons s)" using a by linarith
  moreover have "nat b < length (episodes (seasons s ! nat a))" using b by linarith
  moreover have "ep = episode_at s (nat a) (nat b)" by (simp add: ep episode_at_def)
  ultimately show ?thesis by blast
qed

lemma getEpisode_negative_season: "i < 0 \<Longrightarrow> getEpisode s (Finite i) ei = Inl TypeError"
  by (simp add: getEpisode_def)

lemma getEpisode_season_too_large:
  "int (length (seasons s)) \<le> i \<Longrightarrow> getEpisode s (Finite i) ei = Inr Null"
  by (simp add: getEpisode_def)

lemma getEpisode_episode_out_of_range:
  assumes "i < length (seasons s)"
  shows "int (length (episodes (seasons s ! i))) \<le> k \<Longrightarrow>
           getEpisode s (Finite (int i)) (Finite k) = Inr Null"
    and "k < 0 \<Longrightarrow> getEpisode s (Finite (int i)) (Finite k) = Inr Undefined"
  using assms by (simp_all add: getEpisode_def)

lemma episode_at_set_episode:
  "i < length (seasons s) \<Longrightarrow> j < length (episodes (seasons s ! i)) \<Longrightarrow>
   episode_at (set_episode s (Finite (int i)) (Finite (int j)) e) i j = e"
  by (simp add: set_episode_def set_season_def episode_at_def index_of_def Let_def)

lemma seasons_set_episode_length:
  "length (seasons (set_episode s si ei e)) = length (seasons s)"
  by (simp add: set_episode_def set_season_def Let_def)

lemma episodes_set_episode_length:
  "i < length (seasons s) \<Longrightarrow>
   length (episodes (seasons (set_episode s (Finite (int i)) ei e) ! i)) = length (episodes (seasons s ! i))"
  by (simp add: set_episode_def set_season_def Let_def index_of_def)

lemma set_episode_twice:
  "index_of si < length (seasons s) \<Longrightarrow>
   set_episode (set_episode s si ei e) si ei e' = set_episode s si ei e'"
  by (simp add: set_episode_def set_season_def Let_def)


lemma deletes_map_append_Save [simp]: "deletes (map DeleteFromS3 ks @ [Save d]) = ks"
  by (induction ks) simp_all

lemma stored_map_append_Save [simp]: "stored s (map DeleteFromS3 ks @ [Save d]) = d"
  by (induction ks) simp_all


lemma splice1_valid:
  "i < length xs \<Longrightarrow> splice1 xs (Finite (int i)) = take i xs @ drop (Suc i) xs"
  by (simp add: splice1_def Let_def min_def)

lemma delete_if_key_storage_key:
  "concat (map (\<lambda>r. delete_if_key (gk r)) rs) = List.map_filter (storage_key gk) rs"
  by (induction rs) (auto simp: delete_if_key_def storage_key_def map_filter_simps split: option.splits)

lemma deleteEpisodeAssets_collect:
  "deleteEpisodeAssets gk e = List.map_filter (storage_key gk) (collectEpisodeAssets_spec e)"
  unfolding delete_if_key_storage_key [symmetric]
  by (simp add: deleteEpisodeAssets_def collectEpisodeAssets_spec_def comp_def)

lemma delete_season_valid:
  assumes "i < length (seasons s)" and "2 \<le> length (seasons s)"
  shows "delete_season gk (Some s) (Finite (int i)) =
           (Json 200 (SuccessSeries (s\<lparr>seasons := take i (seasons s) @ drop (Suc i) (seasons s)\<rparr>)),
            map DeleteFromS3 (deleteSeasonAssets gk (seasons s ! i))
            @ [Save (s\<lparr>seasons := take i (seasons s) @ drop (Suc i) (seasons s)\<rparr>)])"
  using assms by (simp add: delete_season_def splice1_valid Let_def)

lemma delete_episode_valid:
  assumes "i < length (seasons s)" and "j < length (episodes (seasons s ! i))"
    and "2 \<le> length (episodes (seasons s ! i))"
  shows "delete_episode gk (Some s) (Finite (int i)) (Finite (int j)) =
           (Json 200 (SuccessSeries (set_season s (Finite (int i)) ((seasons s ! i)
               \<lparr>episodes := take j (episodes (seasons s ! i)) @ drop (Suc j) (episodes (seasons s ! i))\<rparr>))),
            map DeleteFromS3 (deleteEpisodeAssets gk (episode_at s i j))
            @ [Save (set_season s (Finite (int i)) ((seasons s ! i)
               \<lparr>episodes := take j (episodes (seasons s ! i)) @ drop (Suc j) (episodes (seasons s ! i))\<rparr>))])"
  using assms by (simp add: delete_episode_def splice1_valid Let_def episode_at_def)

lemma put_reorder_valid:
  assumes "i < length (seasons s)" and "j < length (episodes (seasons s ! i))"
  shows "put_reorder (Some s) (Finite (int i)) (Finite (int j)) (Some ids) =
          (Json 200 Success,
           [Save (set_episode s (Finite (int i)) (Finite (int j))
                 ((episode_at s i j)\<lparr>media := reorderedMedia (episode_at s i j) ids\<rparr>))])"
  using assms by (simp add: put_reorder_def getEpisode_valid Let_def)

lemma find_id_None: "find (\<lambda>m. m_id m = x) ms = None \<longleftrightarrow> x \<notin> m_id ` set ms"
  by (auto simp: find_None_iff)

lemma find_id_Some: "find (\<lambda>m. m_id m = x) ms = Some m \<Longrightarrow> m_id m = x \<and> m \<in> set ms"
  by (auto simp: find_Some_iff)

lemma reorderedMedia_ids:
  "map m_id (reorderedMedia e ids) = filter (\<lambda>x. x \<in> m_id ` set (media e)) ids"
proof (induction ids)
  case Nil
  show ?case by (simp add: reorderedMedia_def map_filter_simps)
next
  case (Cons x xs)
  show ?case
  proof (cases "find (\<lambda>m. m_id m = x) (media e)")
    case None
    then have "x \<notin> m_id ` set (media e)" by (simp add: find_id_None)
    with None Cons show ?thesis by (simp add: reorderedMedia_def map_filter_simps)
  next
    case (Some m)
    then have "m_id m = x" "m \<in> set (media e)" by (auto dest: find_id_Some)
    then have "x \<in> m_id ` set (media e)" by blast
    with Some Cons \<open>m_id m = x\<close> show ?thesis by (simp add: reorderedMedia_def map_filter_simps)
  qed
qed

lemma reorderedMedia_subset: "set (reorderedMedia e ids) \<subseteq> set (media e)"
  by (auto simp: reorderedMedia_def List.map_filter_def dest: find_id_Some)

lemmas demo_defs = demo_series_def demo_series2_def demo_episode_def legacy_episode_def
  plain_episode_def demo_prefix_def

lemma demo_keys:
  "deleteEpisodeAssets (getKeyFromUrl_spec demo_prefix) demo_episode = [''t'', ''m'', ''x'']"
  "deleteEpisodeAssets (getKeyFromUrl_spec demo_prefix) legacy_episode = []"
  "deleteEpisodeAssets (getKeyFromUrl_spec demo_prefix) plain_episode = []"
  by (simp_all add: deleteEpisodeAssets_def demo_defs truthy_def delete_if_key_def
      getKeyFromUrl_spec_def)

lemma length_map_filter_all:
  "list_all (\<lambda>x. f x \<noteq> None) xs \<Longrightarrow> length (List.map_filter f xs) = length xs"
  by (induction xs) auto

lemma demo_calls:
  "List.map_filter (storage_key (getKeyFromUrl_spec demo_prefix))
     (collectEpisodeAssets_spec demo_episode) = [''t'', ''m'', ''x'']"
  "List.map_filter (storage_key (getKeyFromUrl_spec demo_prefix))
     (collectEpisodeAssets_spec legacy_episode) = []"
  "List.map_filter (storage_key (getKeyFromUrl_spec demo_prefix))
     (collectEpisodeAssets_spec plain_episode) = []"
  by (simp_all only: deleteEpisodeAssets_collect [symmetric] demo_keys)

section \<open>Locating an episode\<close>

text \<open>
  Claim C4. \<open>getEpisode\<close> is to answer "not found" for every index out of range, negative
  ones included. At season index \<open>-1\<close> it does not: \<open>series.seasons[-1]\<close> is
  \<open>undefined\<close>, and reading its \<open>episodes\<close> throws a \<open>TypeError\<close>.
\<close>

theorem getEpisode_negative_season_throws:
  "getEpisode demo_series (Finite (- 1)) (Finite 0) = Inl TypeError"
  by (simp add: getEpisode_def demo_series_def)


section \<open>Removing the last season\<close>

text \<open>
  Claim C9. On a series whose only season holds one episode, removing season 0 is refused
  with status 400 and the message for the last season; nothing is saved, so the document
  stays as it was, and no blob is deleted.
\<close>

theorem delete_last_season_rejected:
  assumes "seasons s = [sn]" and "episodes sn = [e]"
  shows "delete_season gk (Some s) (Finite 0) =
           (Json 400 (Error ''Cannot delete the last season''), [])
       \<and> stored s (snd (delete_season gk (Some s) (Finite 0))) = s
       \<and> deletes (snd (delete_season gk (Some s) (Finite 0))) = []"
  using assms by (simp add: delete_season_def)

theorem delete_last_season_rejected_witness:
  "seasons demo_series = [\<lparr>season.title = Some ''Season 1'', episodes = [demo_episode]\<rparr>]
   \<and> delete_season (getKeyFromUrl_spec demo_prefix) (Some demo_series) (Finite 0) =
           (Json 400 (Error ''Cannot delete the last season''), [])
   \<and> stored demo_series (snd (delete_season (getKeyFromUrl_spec demo_prefix) (Some demo_series) (Finite 0))) = demo_series"
  using delete_last_season_rejected [of demo_series "\<lparr>season.title = Some ''Season 1'', episodes = [demo_episode]\<rparr>" demo_episode "getKeyFromUrl_spec demo_prefix"]
  by (simp add: demo_series_def)


section \<open>Deleting an episode's music\<close>

lemma delete_music_valid:
  assumes "i < length (seasons s)" and "j < length (episodes (seasons s ! i))"
  shows "delete_music gk (Some s) (Finite (int i)) (Finite (int j)) =
          (Json 200 Success,
           map DeleteFromS3 (if truthy (music (episode_at s i j))
                             then delete_if_key (gk (music (episode_at s i j))) else [])
           @ [Save (set_episode s (Finite (int i)) (Finite (int j))
                 ((episode_at s i j)\<lparr>music := None, musicOriginalName := None\<rparr>))])"
  using assms by (simp add: delete_music_def getEpisode_valid Let_def)


text \<open>
  Claim C10. At every valid pair of indices the request succeeds; when the episode has no
  music it deletes no blob; afterwards \<open>music\<close> and \<open>musicOriginalName\<close> are cleared;
  and a second request succeeds, deletes nothing and saves the same document again.
\<close>

theorem delete_music_idempotent:
  fixes gk :: key_of_url and s :: series and i j :: nat
  assumes "i < length (seasons s)" and "j < length (episodes (seasons s ! i))"
  defines "run \<equiv> (\<lambda>d. delete_music gk (Some d) (Finite (int i)) (Finite (int j)))"
  defines "s' \<equiv> stored s (snd (run s))"
  shows "fst (run s) = Json 200 Success
       \<and> (\<not> truthy (music (episode_at s i j)) \<longrightarrow> deletes (snd (run s)) = [])
       \<and> music (episode_at s' i j) = None \<and> musicOriginalName (episode_at s' i j) = None
       \<and> fst (run s') = Json 200 Success \<and> deletes (snd (run s')) = []
       \<and> stored s' (snd (run s')) = s'"
proof -
  let ?e' = "(episode_at s i j)\<lparr>music := None, musicOriginalName := None\<rparr>"
  have s': "s' = set_episode s (Finite (int i)) (Finite (int j)) ?e'"
    using assms(1,2) by (simp add: s'_def run_def delete_music_valid)
  have i': "i < length (seasons s')" using assms(1) by (simp add: s' seasons_set_episode_length)
  have j': "j < length (episodes (seasons s' ! i))"
    using assms(1,2) by (simp add: s' episodes_set_episode_length)
  have at: "episode_at s' i j = ?e'"
    using assms(1,2) by (simp add: s' episode_at_set_episode)
  have first: "fst (run s) = Json 200 Success"
    using assms(1,2) by (simp add: run_def delete_music_valid)
  have unset: "\<not> truthy (music (episode_at s i j)) \<longrightarrow> deletes (snd (run s)) = []"
    using assms(1,2) by (simp add: run_def delete_music_valid)
  have cleared: "music (episode_at s' i j) = None \<and> musicOriginalName (episode_at s' i j) = None"
    by (simp add: at)
  have "run s' = (Json 200 Success, [Save (set_episode s' (Finite (int i)) (Finite (int j)) ?e')])"
    using i' j' by (simp add: run_def delete_music_valid at truthy_def)
  moreover have "set_episode s' (Finite (int i)) (Finite (int j)) ?e' = s'"
    using assms(1) by (simp add: s' set_episode_twice index_of_def)
  ultimately have again: "fst (run s') = Json 200 Success \<and> deletes (snd (run s')) = []
         \<and> stored s' (snd (run s')) = s'"
    by simp
  from first unset cleared again show ?thesis by blast
qed

theorem delete_music_idempotent_witness:
  "0 < length (seasons demo_series) \<and> 0 < length (episodes (seasons demo_series ! 0))
   \<and> deletes (snd (delete_music (getKeyFromUrl_spec demo_prefix) (Some demo_series) (Finite 0) (Finite 0))) = [''m'']
   \<and> music (episode_at (stored demo_series (snd (delete_music (getKeyFromUrl_spec demo_prefix) (Some demo_series) (Finite 0) (Finite 0)))) 0 0) = None"
proof -
  have a: "0 < length (seasons demo_series)" by (simp add: demo_series_def)
  have b: "0 < length (episodes (seasons demo_series ! 0))" by (simp add: demo_series_def)
  have c: "deletes (snd (delete_music (getKeyFromUrl_spec demo_prefix) (Some demo_series) (Finite 0) (Finite 0))) = [''m'']"
    by (simp add: delete_music_def getEpisode_def demo_series_def demo_episode_def truthy_def
        delete_if_key_def getKeyFromUrl_spec_def demo_prefix_def Let_def)
  from delete_music_idempotent [OF a b, of "getKeyFromUrl_spec demo_prefix"] a b c
  show ?thesis by simp
qed

section \<open>Reordering media\<close>

text \<open>
  Claim C3. For every episode and every list of ids, the reorder request stores as the
  episode's media the ids of the list that name an existing media item, in the order of
  the list, each standing for an item of the old sequence; an item whose id is not in
  the list is gone from the sequence; and no blob is deleted.
\<close>

theorem reorder_rebuilds_media:
  fixes s :: series and i j :: nat and ids :: "string list"
  assumes "i < length (seasons s)" and "j < length (episodes (seasons s ! i))"
  defines "out \<equiv> put_reorder (Some s) (Finite (int i)) (Finite (int j)) (Some ids)"
  defines "after \<equiv> media (episode_at (stored s (snd out)) i j)"
  shows "fst out = Json 200 Success
       \<and> map m_id after = filter (\<lambda>x. x \<in> m_id ` set (media (episode_at s i j))) ids
       \<and> set after \<subseteq> set (media (episode_at s i j))
       \<and> (\<forall>m \<in> set (media (episode_at s i j)). m_id m \<notin> set ids \<longrightarrow> m_id m \<notin> m_id ` set after)
       \<and> deletes (snd out) = []"
proof -
  have out: "out = (Json 200 Success,
           [Save (set_episode s (Finite (int i)) (Finite (int j))
                 ((episode_at s i j)\<lparr>media := reorderedMedia (episode_at s i j) ids\<rparr>))])"
    using assms(1,2) by (simp add: out_def put_reorder_valid)
  have after: "after = reorderedMedia (episode_at s i j) ids"
    using assms(1,2) by (simp add: after_def out episode_at_set_episode)
  have ids: "map m_id after = filter (\<lambda>x. x \<in> m_id ` set (media (episode_at s i j))) ids"
    by (simp add: after reorderedMedia_ids)
  have sub: "set after \<subseteq> set (media (episode_at s i j))"
    by (simp add: after reorderedMedia_subset)
  have "set (map m_id after) \<subseteq> set ids" unfolding ids by auto
  then have dropped: "\<forall>m \<in> set (media (episode_at s i j)). m_id m \<notin> set ids \<longrightarrow> m_id m \<notin> m_id ` set after"
    by auto
  from out ids sub dropped show ?thesis by simp
qed


theorem reorder_rebuilds_media_witness:
  "0 < length (seasons demo_series) \<and> 0 < length (episodes (seasons demo_series ! 0))
   \<and> map m_id (media (episode_at (stored demo_series
        (snd (put_reorder (Some demo_series) (Finite 0) (Finite 0) (Some [''b'', ''a''])))) 0 0)) = [''a'']"
proof -
  have a: "0 < length (seasons demo_series)" by (simp add: demo_defs)
  have b: "0 < length (episodes (seasons demo_series ! 0))" by (simp add: demo_defs)
  have c: "filter (\<lambda>x. x \<in> m_id ` set (media (episode_at demo_series 0 0))) [''b'', ''a''] = [''a'']"
    by (simp add: demo_defs episode_at_def)
  from reorder_rebuilds_media [OF a b, of "[''b'', ''a'']"] a b c show ?thesis by simp
qed


section \<open>Asset cleanup on removal\<close>

text \<open>
  Claim C2, as stated: one delete call for every asset reference the removed episode
  owns. It fails for a reference from which no storage key is derived: the episode below
  has a thumbnail outside the blob store's prefix, and removing it deletes nothing.
\<close>

theorem legacy_reference_not_deleted:
  "collectEpisodeAssets_spec legacy_episode = [Some ''/uploads/t.png'']
   \<and> deleteEpisodeAssets (getKeyFromUrl_spec demo_prefix) legacy_episode = []
   \<and> deletes (snd (delete_episode (getKeyFromUrl_spec demo_prefix) (Some demo_series2)
                     (Finite 0) (Finite 1))) = []"
proof -
  have refs: "collectEpisodeAssets_spec legacy_episode = [Some ''/uploads/t.png'']"
    by (simp add: collectEpisodeAssets_spec_def legacy_episode_def truthy_def)
  have at: "episode_at demo_series2 0 (Suc 0) = legacy_episode"
    by (simp add: episode_at_def demo_series2_def)
  have "deletes (snd (delete_episode (getKeyFromUrl_spec demo_prefix) (Some demo_series2)
                     (Finite (int 0)) (Finite (int 1))))
         = deleteEpisodeAssets (getKeyFromUrl_spec demo_prefix) (episode_at demo_series2 0 1)"
    by (subst delete_episode_valid) (simp_all add: demo_series2_def)
  then show ?thesis by (simp add: refs at demo_keys)
qed


text \<open>
  Claim C2, amended. Removing an episode, or a season with all its episodes, issues one
  delete call, with its key, for each owned asset reference from which a non-empty
  storage key is derived: the thumbnail if set, the music if set and each media item's
  url, in that order. It issues none for an unset reference and none for a reference
  without a key. When every owned reference has a key, that is one call for each.
\<close>

theorem delete_calls_per_derived_key:
  fixes gk :: key_of_url and s :: series and i j :: nat
  defines "calls \<equiv> (\<lambda>e. List.map_filter (storage_key gk) (collectEpisodeAssets_spec e))"
  shows "deleteEpisodeAssets gk e = calls e
       \<and> (list_all (\<lambda>r. storage_key gk r \<noteq> None) (collectEpisodeAssets_spec e) \<longrightarrow>
            length (deleteEpisodeAssets gk e) = length (collectEpisodeAssets_spec e))
       \<and> deleteSeasonAssets gk sn = concat (map calls (episodes sn))
       \<and> (i < length (seasons s) \<and> j < length (episodes (seasons s ! i))
            \<and> 2 \<le> length (episodes (seasons s ! i)) \<longrightarrow>
          deletes (snd (delete_episode gk (Some s) (Finite (int i)) (Finite (int j))))
            = calls (episode_at s i j))
       \<and> (i < length (seasons s) \<and> 2 \<le> length (seasons s) \<longrightarrow>
          deletes (snd (delete_season gk (Some s) (Finite (int i))))
            = concat (map calls (episodes (seasons s ! i))))"
proof -
  have e: "\<And>e. deleteEpisodeAssets gk e = calls e"
    by (simp add: calls_def deleteEpisodeAssets_collect)
  have len: "list_all (\<lambda>r. storage_key gk r \<noteq> None) (collectEpisodeAssets_spec e) \<longrightarrow>
            length (deleteEpisodeAssets gk e) = length (collectEpisodeAssets_spec e)"
    by (simp add: deleteEpisodeAssets_collect length_map_filter_all)
  have sn: "\<And>sn. deleteSeasonAssets gk sn = concat (map calls (episodes sn))"
    by (simp add: deleteSeasonAssets_def e [abs_def])
  have de: "i < length (seasons s) \<and> j < length (episodes (seasons s ! i))
            \<and> 2 \<le> length (episodes (seasons s ! i)) \<longrightarrow>
          deletes (snd (delete_episode gk (Some s) (Finite (int i)) (Finite (int j))))
            = calls (episode_at s i j)"
    by (simp add: delete_episode_valid e)
  have ds: "i < length (seasons s) \<and> 2 \<le> length (seasons s) \<longrightarrow>
          deletes (snd (delete_season gk (Some s) (Finite (int i))))
            = concat (map calls (episodes (seasons s ! i)))"
    by (simp add: delete_season_valid sn)
  from e len sn de ds show ?thesis by blast
qed

theorem delete_calls_per_derived_key_witness:
  "(0::nat) < length (seasons demo_series2) \<and> (0::nat) < length (episodes (seasons demo_series2 ! 0))
   \<and> 2 \<le> length (episodes (seasons demo_series2 ! 0)) \<and> 2 \<le> length (seasons demo_series2)
   \<and> list_all (\<lambda>r. storage_key (getKeyFromUrl_spec demo_prefix) r \<noteq> None)
        (collectEpisodeAssets_spec demo_episode)
   \<and> length (deleteEpisodeAssets (getKeyFromUrl_spec demo_prefix) demo_episode) = 3
   \<and> deletes (snd (delete_episode (getKeyFromUrl_spec demo_prefix) (Some demo_series2)
                     (Finite 0) (Finite 0))) = [''t'', ''m'', ''x'']
   \<and> deletes (snd (delete_season (getKeyFromUrl_spec demo_prefix) (Some demo_series2)
                     (Finite 0))) = [''t'', ''m'', ''x'']"
proof -
  let ?gk = "getKeyFromUrl_spec demo_prefix"
  have h: "(0::nat) < length (seasons demo_series2)"
    "(0::nat) < length (episodes (seasons demo_series2 ! 0))"
    "2 \<le> length (episodes (seasons demo_series2 ! 0))" "2 \<le> length (seasons demo_series2)"
    by (simp_all add: demo_series2_def)
  have refs: "collectEpisodeAssets_spec demo_episode
                = [Some ''https://b/t'', Some ''https://b/m'', Some ''https://b/x'']"
    by (simp add: collectEpisodeAssets_spec_def demo_episode_def truthy_def)
  have all: "list_all (\<lambda>r. storage_key ?gk r \<noteq> None) (collectEpisodeAssets_spec demo_episode)"
    by (simp add: refs storage_key_def getKeyFromUrl_spec_def demo_prefix_def)
  have at: "episode_at demo_series2 0 0 = demo_episode"
    "episodes (seasons demo_series2 ! 0) = [demo_episode, legacy_episode]"
    by (simp_all add: episode_at_def demo_series2_def)
  note t = delete_calls_per_derived_key
    [where gk = ?gk and e = demo_episode and sn = "seasons demo_series2 ! 0"
       and s = demo_series2 and i = 0 and j = 0]
  from t all have "length (deleteEpisodeAssets ?gk demo_episode)
      = length (collectEpisodeAssets_spec demo_episode)"
    by blast
  then have one: "length (deleteEpisodeAssets ?gk demo_episode) = 3"
    by (simp add: refs)
  from t h have "deletes (snd (delete_episode ?gk (Some demo_series2) (Finite (int 0)) (Finite (int 0))))
      = List.map_filter (storage_key ?gk) (collectEpisodeAssets_spec (episode_at demo_series2 0 0))"
    by blast
  then have two: "deletes (snd (delete_episode ?gk (Some demo_series2) (Finite 0) (Finite 0)))
      = [''t'', ''m'', ''x'']"
    by (simp add: at demo_calls)
  from t h have "deletes (snd (delete_season ?gk (Some demo_series2) (Finite (int 0))))
      = concat (map (\<lambda>e. List.map_filter (storage_key ?gk) (collectEpisodeAssets_spec e))
          (episodes (seasons demo_series2 ! 0)))"
    by blast
  then have three: "deletes (snd (delete_season ?gk (Some demo_series2) (Finite 0)))
      = [''t'', ''m'', ''x'']"
    by (simp add: at demo_calls)
  from h all one two three show ?thesis by blast
qed

section \<open>Removing a season\<close>

lemma delete_season_out_of_range:
  "int (length (seasons s)) \<le> n \<Longrightarrow>
   delete_season gk (Some s) (Finite n) = (Json 400 (Error ''Invalid season index''), [])"
  by (simp add: delete_season_def)

lemma delete_season_last:
  "\<not> js_ge idx (length (seasons s)) \<Longrightarrow> length (seasons s) \<le> 1 \<Longrightarrow>
   delete_season gk (Some s) idx = (Json 400 (Error ''Cannot delete the last season''), [])"
  by (simp add: delete_season_def)

text \<open>
  What the handler does at every index that is at least the number of seasons, at every
  index below it when one season remains, and at every index \<open>i\<close> of a season otherwise:
  there it calls the asset cleanup of every episode of the season, then saves the series
  without it; the seasons before \<open>i\<close> keep their index and each later one moves down
  by one.
\<close>

lemma delete_season_cases:
  fixes gk :: key_of_url and s :: series and n :: int and i :: nat
  defines "rest \<equiv> take i (seasons s) @ drop (Suc i) (seasons s)"
  shows "(int (length (seasons s)) \<le> n \<longrightarrow>
            delete_season gk (Some s) (Finite n) = (Json 400 (Error ''Invalid season index''), []))
       \<and> (n < int (length (seasons s)) \<and> length (seasons s) \<le> 1 \<longrightarrow>
            delete_season gk (Some s) (Finite n)
              = (Json 400 (Error ''Cannot delete the last season''), []))
       \<and> (i < length (seasons s) \<and> 2 \<le> length (seasons s) \<longrightarrow>
            delete_season gk (Some s) (Finite (int i))
              = (Json 200 (SuccessSeries (s\<lparr>seasons := rest\<rparr>)),
                 map DeleteFromS3 (concat (map (deleteEpisodeAssets gk) (episodes (seasons s ! i))))
                 @ [Save (s\<lparr>seasons := rest\<rparr>)])
            \<and> length rest = length (seasons s) - 1
            \<and> (\<forall>k < i. rest ! k = seasons s ! k)
            \<and> (\<forall>k. i \<le> k \<and> k < length rest \<longrightarrow> rest ! k = seasons s ! Suc k))"
proof -
  have a: "int (length (seasons s)) \<le> n \<longrightarrow>
            delete_season gk (Some s) (Finite n) = (Json 400 (Error ''Invalid season index''), [])"
    by (simp add: delete_season_out_of_range)
  have b: "n < int (length (seasons s)) \<and> length (seasons s) \<le> 1 \<longrightarrow>
            delete_season gk (Some s) (Finite n)
              = (Json 400 (Error ''Cannot delete the last season''), [])"
    by (simp add: delete_season_last)
  have c: "delete_season gk (Some s) (Finite (int i))
              = (Json 200 (SuccessSeries (s\<lparr>seasons := rest\<rparr>)),
                 map DeleteFromS3 (concat (map (deleteEpisodeAssets gk) (episodes (seasons s ! i))))
                 @ [Save (s\<lparr>seasons := rest\<rparr>)])"
    if "i < length (seasons s)" "2 \<le> length (seasons s)"
    using that by (simp add: delete_season_valid rest_def deleteSeasonAssets_def)
  have d: "length rest = length (seasons s) - 1" if "i < length (seasons s)"
    using that by (simp add: rest_def)
  have e: "\<forall>k < i. rest ! k = seasons s ! k" if "i < length (seasons s)"
    using that by (simp add: rest_def nth_append)
  have f: "\<forall>k. i \<le> k \<and> k < length rest \<longrightarrow> rest ! k = seasons s ! Suc k"
    if "i < length (seasons s)"
  proof (intro allI impI)
    fix k assume k: "i \<le> k \<and> k < length rest"
    then have "k - i + Suc i = Suc k" by simp
    with k that show "rest ! k = seasons s ! Suc k"
      by (simp add: rest_def nth_append min_def)
  qed
  from a b c d e f show ?thesis by blast
qed

lemma delete_season_cases_example:
  "delete_season (getKeyFromUrl_spec demo_prefix) (Some demo_series2) (Finite 2)
     = (Json 400 (Error ''Invalid season index''), [])
   \<and> delete_season (getKeyFromUrl_spec demo_prefix) (Some demo_series) (Finite 0)
     = (Json 400 (Error ''Cannot delete the last season''), [])
   \<and> snd (delete_season (getKeyFromUrl_spec demo_prefix) (Some demo_series2) (Finite 0))
     = [DeleteFromS3 ''t'', DeleteFromS3 ''m'', DeleteFromS3 ''x'',
        Save (demo_series2\<lparr>seasons := [\<lparr>season.title = Some ''Season 2'', episodes = [plain_episode]\<rparr>]\<rparr>)]"
proof -
  let ?gk = "getKeyFromUrl_spec demo_prefix"
  have l2: "length (seasons demo_series2) = 2" by (simp add: demo_series2_def)
  have l1: "length (seasons demo_series) = 1" by (simp add: demo_series_def)
  have a: "int (length (seasons demo_series2)) \<le> 2" by (simp add: l2)
  have b: "0 < int (length (seasons demo_series)) \<and> length (seasons demo_series) \<le> 1"
    by (simp add: l1)
  have c: "(0::nat) < length (seasons demo_series2) \<and> 2 \<le> length (seasons demo_series2)"
    by (simp add: l2)
  from delete_season_cases [where gk = ?gk and s = demo_series2 and n = 2] a
  have one: "delete_season ?gk (Some demo_series2) (Finite 2)
     = (Json 400 (Error ''Invalid season index''), [])"
    by blast
  from delete_season_cases [where gk = ?gk and s = demo_series and n = 0] b
  have two: "delete_season ?gk (Some demo_series) (Finite 0)
     = (Json 400 (Error ''Cannot delete the last season''), [])"
    by blast
  from delete_season_cases [where gk = ?gk and s = demo_series2 and i = 0] c
  have "delete_season ?gk (Some demo_series2) (Finite (int 0))
     = (Json 200 (SuccessSeries (demo_series2\<lparr>seasons := take 0 (seasons demo_series2) @ drop (Suc 0) (seasons demo_series2)\<rparr>)),
                 map DeleteFromS3 (concat (map (deleteEpisodeAssets ?gk) (episodes (seasons demo_series2 ! 0))))
                 @ [Save (demo_series2\<lparr>seasons := take 0 (seasons demo_series2) @ drop (Suc 0) (seasons demo_series2)\<rparr>)])"
    by blast
  moreover have "episodes (seasons demo_series2 ! 0) = [demo_episode, legacy_episode]"
    "drop (Suc 0) (seasons demo_series2) = [\<lparr>season.title = Some ''Season 2'', episodes = [plain_episode]\<rparr>]"
    by (simp_all add: demo_series2_def)
  ultimately have three: "snd (delete_season ?gk (Some demo_series2) (Finite 0))
     = [DeleteFromS3 ''t'', DeleteFromS3 ''m'', DeleteFromS3 ''x'',
        Save (demo_series2\<lparr>seasons := [\<lparr>season.title = Some ''Season 2'', episodes = [plain_episode]\<rparr>]\<rparr>)]"
    by (simp add: demo_keys)
  from one two three show ?thesis by blast
qed

lemma delete_season_negative_index:
  "n < 0 \<Longrightarrow> 2 \<le> length (seasons s) \<Longrightarrow>
   delete_season gk (Some s) (Finite n) = (Json 500 (Thrown TypeError), [])"
  by (simp add: delete_season_def)

text \<open>
  Claim C5. Removing a season is to be refused when the index is at least the number of
  seasons or when one season remains, and otherwise to clean up and remove the season.
  At index \<open>-1\<close> of a series with two seasons neither check fires,
  \<open>series.seasons[-1]\<close> is \<open>undefined\<close>, \<open>deleteSeasonAssets\<close> throws on reading its
  \<open>episodes\<close>, and the route answers 500: nothing is cleaned up and nothing is removed.
\<close>

theorem delete_season_negative_index_throws:
  "delete_season (getKeyFromUrl_spec demo_prefix) (Some demo_series2) (Finite (- 1))
     = (Json 500 (Thrown TypeError), [])"
  by (simp add: delete_season_def demo_series2_def)

section \<open>Replacing an episode's thumbnail\<close>

lemma post_upload_thumbnail_valid:
  assumes "i < length (seasons s)" and "j < length (episodes (seasons s ! i))"
  shows "post_upload_thumbnail gk gu (Some s) (Finite (int i)) (Finite (int j)) (Some f) =
          (Json 200 (SuccessFile (key f) (gu (key f))),
           map DeleteFromS3 (if truthy (episode.thumbnail (episode_at s i j))
                             then delete_if_key (gk (episode.thumbnail (episode_at s i j))) else [])
           @ [Save (set_episode s (Finite (int i)) (Finite (int j))
                 ((episode_at s i j)\<lparr>episode.thumbnail := Some (gu (key f))\<rparr>))])"
  using assms by (simp add: post_upload_thumbnail_def getEpisode_valid Let_def)

lemma delete_if_key_Some: "storage_key gk r = Some k \<Longrightarrow> delete_if_key (gk r) = [k]"
  by (auto simp: storage_key_def delete_if_key_def split: option.splits if_splits)

lemma delete_if_key_None: "storage_key gk r = None \<Longrightarrow> delete_if_key (gk r) = []"
  by (auto simp: storage_key_def delete_if_key_def split: option.splits if_splits)

text \<open>
  Claim C8, as stated: an upload to an episode that has a thumbnail issues exactly one
  delete call. It fails when no storage key is derived from the old reference: the
  episode below has a thumbnail outside the blob store's prefix, and the upload replaces
  it without a delete call.
\<close>

theorem legacy_thumbnail_replaced_without_delete:
  "episode.thumbnail (episode_at demo_series2 0 1) = Some ''/uploads/t.png''
   \<and> deletes (snd (post_upload_thumbnail (getKeyFromUrl_spec demo_prefix) (getS3Url_spec demo_prefix)
        (Some demo_series2) (Finite 0) (Finite 1) (Some demo_file))) = []"
proof -
  have at: "episode_at demo_series2 0 (Suc 0) = legacy_episode"
    by (simp add: episode_at_def demo_series2_def)
  have "deletes (snd (post_upload_thumbnail (getKeyFromUrl_spec demo_prefix) (getS3Url_spec demo_prefix)
        (Some demo_series2) (Finite (int 0)) (Finite (int 1)) (Some demo_file)))
     = (if truthy (episode.thumbnail (episode_at demo_series2 0 1))
        then delete_if_key (getKeyFromUrl_spec demo_prefix (episode.thumbnail (episode_at demo_series2 0 1)))
        else [])"
    by (subst post_upload_thumbnail_valid) (simp_all add: demo_series2_def)
  then show ?thesis
    by (simp add: at legacy_episode_def getKeyFromUrl_spec_def demo_prefix_def delete_if_key_def)
qed

text \<open>
  Claim C8, amended. An upload to an episode whose thumbnail is set and yields a non-empty
  storage key issues exactly one delete call, for that key, and then saves the document
  with the new reference. When the episode has no thumbnail, or its thumbnail yields no
  key, the trace is the save alone.
\<close>

theorem thumbnail_upload_deletes_old_key:
  fixes gk :: key_of_url and gu :: "string \<Rightarrow> string" and s :: series and i j :: nat
    and f :: uploaded_file
  assumes "i < length (seasons s)" and "j < length (episodes (seasons s ! i))"
  defines "old \<equiv> episode.thumbnail (episode_at s i j)"
  defines "s' \<equiv> set_episode s (Finite (int i)) (Finite (int j))
                  ((episode_at s i j)\<lparr>episode.thumbnail := Some (gu (key f))\<rparr>)"
  defines "out \<equiv> post_upload_thumbnail gk gu (Some s) (Finite (int i)) (Finite (int j)) (Some f)"
  shows "fst out = Json 200 (SuccessFile (key f) (gu (key f)))
       \<and> episode.thumbnail (episode_at s' i j) = Some (gu (key f))
       \<and> (truthy old \<and> storage_key gk old = Some k \<longrightarrow> snd out = [DeleteFromS3 k, Save s'])
       \<and> (\<not> truthy old \<or> storage_key gk old = None \<longrightarrow> snd out = [Save s'])"
proof -
  have out: "out = (Json 200 (SuccessFile (key f) (gu (key f))),
           map DeleteFromS3 (if truthy old then delete_if_key (gk old) else []) @ [Save s'])"
    using assms(1,2) by (simp add: out_def old_def s'_def post_upload_thumbnail_valid)
  have a: "fst out = Json 200 (SuccessFile (key f) (gu (key f)))" by (simp add: out)
  have b: "episode.thumbnail (episode_at s' i j) = Some (gu (key f))"
    using assms(1,2) by (simp add: s'_def episode_at_set_episode)
  have c: "truthy old \<and> storage_key gk old = Some k \<longrightarrow> snd out = [DeleteFromS3 k, Save s']"
    by (simp add: out delete_if_key_Some)
  have d: "\<not> truthy old \<or> storage_key gk old = None \<longrightarrow> snd out = [Save s']"
    by (auto simp: out delete_if_key_None)
  from a b c d show ?thesis by blast
qed

theorem thumbnail_upload_deletes_old_key_witness:
  "(0::nat) < length (seasons demo_series) \<and> (0::nat) < length (episodes (seasons demo_series ! 0))
   \<and> truthy (episode.thumbnail (episode_at demo_series 0 0))
   \<and> storage_key (getKeyFromUrl_spec demo_prefix) (episode.thumbnail (episode_at demo_series 0 0)) = Some ''t''
   \<and> snd (post_upload_thumbnail (getKeyFromUrl_spec demo_prefix) (getS3Url_spec demo_prefix)
        (Some demo_series) (Finite 0) (Finite 0) (Some demo_file))
     = [DeleteFromS3 ''t'',
        Save (set_episode demo_series (Finite 0) (Finite 0)
               (demo_episode\<lparr>episode.thumbnail := Some ''https://b/n''\<rparr>))]"
proof -
  let ?gk = "getKeyFromUrl_spec demo_prefix" and ?gu = "getS3Url_spec demo_prefix"
  have h: "(0::nat) < length (seasons demo_series)"
    "(0::nat) < length (episodes (seasons demo_series ! 0))"
    by (simp_all add: demo_series_def)
  have at: "episode_at demo_series 0 0 = demo_episode"
    by (simp add: episode_at_def demo_series_def)
  have old: "truthy (episode.thumbnail (episode_at demo_series 0 0))"
    "storage_key ?gk (episode.thumbnail (episode_at demo_series 0 0)) = Some ''t''"
    by (simp_all add: at demo_episode_def truthy_def storage_key_def getKeyFromUrl_spec_def
        demo_prefix_def)
  have url: "?gu (key demo_file) = ''https://b/n''"
    by (simp add: getS3Url_spec_def demo_prefix_def demo_file_def)
  from thumbnail_upload_deletes_old_key [OF h, where gk = ?gk and gu = ?gu and f = demo_file
      and k = "''t''"] old
  have "snd (post_upload_thumbnail ?gk ?gu (Some demo_series) (Finite (int 0)) (Finite (int 0))
          (Some demo_file))
     = [DeleteFromS3 ''t'',
        Save (set_episode demo_series (Finite (int 0)) (Finite (int 0))
               ((episode_at demo_series 0 0)\<lparr>episode.thumbnail := Some (?gu (key demo_file))\<rparr>))]"
    by blast
  then have "snd (post_upload_thumbnail ?gk ?gu (Some demo_series) (Finite 0) (Finite 0)
          (Some demo_file))
     = [DeleteFromS3 ''t'',
        Save (set_episode demo_series (Finite 0) (Finite 0)
               (demo_episode\<lparr>episode.thumbnail := Some ''https://b/n''\<rparr>))]"
    by (simp add: at url)
  with h old show ?thesis by blast
qed

section \<open>Uniqueness of media ids\<close>

lemma show_nat_nonempty: "show_nat n \<noteq> []"
  by (subst show_nat.simps) simp

lemma digit_char_inj:
  assumes "a < 10" and "b < 10" and "(char_of (48 + a) :: char) = char_of (48 + b)"
  shows "a = (b::nat)"
proof -
  from assms(3) have "(of_char (char_of (48 + a) :: char) :: nat) = of_char (char_of (48 + b) :: char)"
    by simp
  then have "(48 + a) mod 256 = (48 + b) mod 256" by (simp only: of_char_of)
  with assms(1,2) show ?thesis by simp
qed

lemma show_nat_small: "n < 10 \<Longrightarrow> show_nat n = [char_of (48 + n)]"
  by (subst show_nat.simps) simp

lemma show_nat_large:
  "\<not> n < 10 \<Longrightarrow> show_nat n = show_nat (n div 10) @ [char_of (48 + n mod 10)]"
  by (subst show_nat.simps) simp

lemma map_fst_zip_comp:
  "length xs = length ys \<Longrightarrow> map (\<lambda>p. f (fst p)) (zip xs ys) = map f xs"
  by (induction xs ys rule: list_induct2) simp_all

lemma m_id_pushed: "map m_id (pushed n new) = map objectId [n..<n + length new]"
  by (simp add: pushed_def subdocument_def comp_def map_fst_zip_comp)

lemma show_nat_inj: "show_nat m = show_nat n \<Longrightarrow> m = n"
proof (induction m arbitrary: n rule: show_nat.induct)
  case (1 m)
  show ?case
  proof (cases "m < 10")
    case m: True
    show ?thesis
    proof (cases "n < 10")
      case True
      with m "1.prems" have "(char_of (48 + m) :: char) = char_of (48 + n)"
        by (simp add: show_nat_small)
      with m True show ?thesis by (rule digit_char_inj)
    next
      case False
      with m "1.prems" have "[char_of (48 + m)] = show_nat (n div 10) @ [char_of (48 + n mod 10)]"
        by (simp add: show_nat_small show_nat_large)
      then show ?thesis using show_nat_nonempty [of "n div 10"] by simp
    qed
  next
    case m: False
    show ?thesis
    proof (cases "n < 10")
      case True
      with m "1.prems" have "show_nat (m div 10) @ [char_of (48 + m mod 10)] = [char_of (48 + n)]"
        by (simp add: show_nat_small show_nat_large)
      then show ?thesis using show_nat_nonempty [of "m div 10"] by simp
    next
      case False
      with m "1.prems" have eq: "show_nat (m div 10) @ [char_of (48 + m mod 10)]
          = show_nat (n div 10) @ [char_of (48 + n mod 10)]"
        by (simp add: show_nat_large)
      then have p: "show_nat (m div 10) = show_nat (n div 10)"
        and c: "(char_of (48 + m mod 10) :: char) = char_of (48 + n mod 10)"
        by simp_all
      from "1.IH" [OF m p] have d: "m div 10 = n div 10" .
      have "m mod 10 < 10" "n mod 10 < 10" by simp_all
      then have r: "m mod 10 = n mod 10" using c by (rule digit_char_inj)
      have "m = m div 10 * 10 + m mod 10" by simp
      also have "\<dots> = n div 10 * 10 + n mod 10" by (simp only: d r)
      also have "\<dots> = n" by simp
      finally show ?thesis .
    qed
  qed
qed

lemma objectId_inj: "objectId m = objectId n \<longleftrightarrow> m = n"
  by (auto simp: objectId_def dest: show_nat_inj)

lemma distinct_objectIds: "distinct (map objectId [a..<b])"
  by (simp add: distinct_map inj_on_def objectId_inj)

lemma findIndex_from_range:
  "findIndex_from p xs k = -1 \<or> (k \<le> findIndex_from p xs k \<and> findIndex_from p xs k < k + int (length xs))"
  by (induction xs arbitrary: k) (auto, force+)

lemma findIndex_range:
  "findIndex p xs \<noteq> -1 \<Longrightarrow> 0 \<le> findIndex p xs \<and> findIndex p xs < int (length xs)"
  using findIndex_from_range [of p xs 0] by (simp add: findIndex_def)

lemma distinct_remove_nth:
  assumes "distinct (map f xs)"
  shows "distinct (map f (take k xs @ drop (Suc k) xs))"
proof -
  have "distinct (take k (map f xs) @ drop (Suc k) (map f xs))"
    using assms by (simp add: set_take_disj_set_drop_if_distinct)
  then show ?thesis by (simp add: take_map drop_map)
qed

lemma distinct_splice1:
  assumes "distinct (map f xs)" and "0 \<le> n" and "n < int (length xs)"
  shows "distinct (map f (splice1 xs (Finite n)))"
proof -
  have "splice1 xs (Finite (int (nat n))) = take (nat n) xs @ drop (Suc (nat n)) xs"
    using assms(2,3) by (intro splice1_valid) linarith
  with assms(2) have "splice1 xs (Finite n) = take (nat n) xs @ drop (Suc (nat n)) xs" by simp
  with assms(1) show ?thesis by (simp only: distinct_remove_nth)
qed

lemma delete_media_valid:
  assumes "i < length (seasons s)" and "j < length (episodes (seasons s ! i))"
  shows "delete_media gk (Some s) (Finite (int i)) (Finite (int j)) mediaId =
          (let e = episode_at s i j; mediaIndex = findIndex (\<lambda>m. m_id m = mediaId) (media e)
           in if mediaIndex = -1 then (Json 404 (Error ''Media not found''), [])
              else (Json 200 Success,
                    map DeleteFromS3 (delete_if_key (gk (url (media e ! nat mediaIndex))))
                    @ [Save (set_episode s (Finite (int i)) (Finite (int j))
                          (e\<lparr>media := splice1 (media e) (Finite mediaIndex)\<rparr>))]))"
  using assms by (simp add: delete_media_def getEpisode_valid Let_def)

lemma media_ids_set_episode:
  "i < length (seasons s) \<Longrightarrow> j < length (episodes (seasons s ! i)) \<Longrightarrow>
   media_ids (set_episode s (Finite (int i)) (Finite (int j)) e) i j = map m_id (media e)"
  by (simp add: media_ids_def episode_at_set_episode)


lemma post_upload_media_valid:
  assumes "i < length (seasons s)" and "j < length (episodes (seasons s ! i))" and "files \<noteq> []"
  shows "post_upload_media gu iv issued (Some s) (Finite (int i)) (Finite (int j)) files =
          ((Json 200 (SuccessFiles (map (newMedia gu iv) files)),
            [Save (set_episode s (Finite (int i)) (Finite (int j))
                  ((episode_at s i j)\<lparr>media := media (episode_at s i j)
                     @ pushed issued (map (newMedia gu iv) files)\<rparr>))]),
           issued + length files)"
  using assms by (simp add: post_upload_media_def getEpisode_valid Let_def)

lemma post_upload_media_empty:
  "post_upload_media gu iv issued found si ei [] = ((Json 400 (Error ''No files uploaded''), []), issued)"
  by (simp add: post_upload_media_def)

lemma ids_issued_iff:
  "ids_issued issued s i j \<longleftrightarrow> set (media_ids s i j) \<subseteq> objectId ` {0..<issued}"
  by (auto simp: ids_issued_def list_all_iff)

lemma distinct_with_new_ids:
  assumes "distinct xs" and "set xs \<subseteq> objectId ` {0..<n}"
  shows "distinct (xs @ map objectId [n..<n + k])"
proof -
  have "set xs \<inter> set (map objectId [n..<n + k]) = {}"
  proof (rule ccontr)
    assume "set xs \<inter> set (map objectId [n..<n + k]) \<noteq> {}"
    then obtain x where x: "x \<in> set xs" and "x \<in> objectId ` {n..<n + k}" by auto
    then obtain b where b: "n \<le> b" "x = objectId b" by auto
    from x assms(2) have "x \<in> objectId ` {0..<n}" by blast
    then obtain a where a: "a < n" "x = objectId a" by auto
    from a b have "a < n" "n \<le> b" "objectId a = objectId b" by simp_all
    then show False by (simp add: objectId_inj)
  qed
  with assms(1) show ?thesis by (simp add: distinct_objectIds)
qed

lemma upload_media_ids:
  assumes "i < length (seasons s)" and "j < length (episodes (seasons s ! i))"
  shows "media_ids (stored s (snd (fst (post_upload_media gu iv issued (Some s)
            (Finite (int i)) (Finite (int j)) files)))) i j
         = media_ids s i j @ map objectId [issued..<issued + length files]"
proof (cases "files = []")
  case True
  then show ?thesis by (simp add: post_upload_media_empty)
next
  case False
  have "media_ids (set_episode s (Finite (int i)) (Finite (int j))
          ((episode_at s i j)\<lparr>media := media (episode_at s i j)
             @ pushed issued (map (newMedia gu iv) files)\<rparr>)) i j
        = map m_id (media (episode_at s i j) @ pushed issued (map (newMedia gu iv) files))"
    using assms by (simp add: media_ids_set_episode del: map_append)
  also have "\<dots> = media_ids s i j @ map objectId [issued..<issued + length files]"
    using m_id_pushed [of issued "map (newMedia gu iv) files"] by (simp add: media_ids_def)
  finally show ?thesis using False assms by (simp add: post_upload_media_valid)
qed

lemma upload_issued:
  "snd (post_upload_media gu iv issued found si ei files) = issued
   \<or> snd (post_upload_media gu iv issued found si ei files) = issued + length files"
  by (auto simp: post_upload_media_def invalid_index_def Let_def
      split: option.splits sum.splits ref.splits)

lemma upload_issued_valid:
  assumes "i < length (seasons s)" and "j < length (episodes (seasons s ! i))"
  shows "snd (post_upload_media gu iv issued (Some s) (Finite (int i)) (Finite (int j)) files)
         = issued + length files"
proof (cases "files = []")
  case True
  then show ?thesis by (simp add: post_upload_media_empty)
next
  case False
  with assms show ?thesis by (simp add: post_upload_media_valid)
qed

lemma delete_media_ids_subset:
  assumes "i < length (seasons s)" and "j < length (episodes (seasons s ! i))"
  shows "set (media_ids (stored s (snd (delete_media gk (Some s) (Finite (int i)) (Finite (int j))
            mediaId))) i j) \<subseteq> set (media_ids s i j)"
proof (cases "findIndex (\<lambda>m. m_id m = mediaId) (media (episode_at s i j)) = -1")
  case True
  then show ?thesis using assms by (simp add: delete_media_valid)
next
  case False
  let ?ms = "media (episode_at s i j)"
  let ?k = "findIndex (\<lambda>m. m_id m = mediaId) ?ms"
  from findIndex_range [OF False] have "splice1 ?ms (Finite (int (nat ?k)))
      = take (nat ?k) ?ms @ drop (Suc (nat ?k)) ?ms"
    by (intro splice1_valid) linarith
  with findIndex_range [OF False]
  have "splice1 ?ms (Finite ?k) = take (nat ?k) ?ms @ drop (Suc (nat ?k)) ?ms" by simp
  then have "set (splice1 ?ms (Finite ?k)) \<subseteq> set ?ms"
    by (auto dest: in_set_takeD in_set_dropD)
  then have "set (map m_id (splice1 ?ms (Finite ?k))) \<subseteq> set (map m_id ?ms)" by auto
  moreover have "media_ids (stored s (snd (delete_media gk (Some s) (Finite (int i)) (Finite (int j))
            mediaId))) i j = map m_id (splice1 ?ms (Finite ?k))"
    using False assms by (simp add: delete_media_valid Let_def media_ids_set_episode)
  ultimately show ?thesis by (simp only: media_ids_def)
qed

lemma reorder_media_ids:
  assumes "i < length (seasons s)" and "j < length (episodes (seasons s ! i))"
  shows "media_ids (stored s (snd (put_reorder (Some s) (Finite (int i)) (Finite (int j))
            (Some ids)))) i j = filter (\<lambda>x. x \<in> set (media_ids s i j)) ids"
proof -
  have "media_ids (stored s (snd (put_reorder (Some s) (Finite (int i)) (Finite (int j))
            (Some ids)))) i j = map m_id (reorderedMedia (episode_at s i j) ids)"
    using assms by (simp add: put_reorder_valid media_ids_set_episode)
  then show ?thesis by (simp add: reorderedMedia_ids media_ids_def)
qed


lemma no_media_ids_issued:
  "media (episode_at s i j) = [] \<Longrightarrow> ids_issued issued s i j \<and> distinct (media_ids s i j)"
  by (simp add: ids_issued_def media_ids_def)

text \<open>
  Claim C7, as stated: every operation on an episode's media keeps the ids unique, the
  reorder with any list of ids included. It fails for a list that names an existing id
  twice: the stored sequence then holds that item twice.
\<close>

theorem reorder_duplicates_ids:
  "distinct (media_ids demo_series 0 0)
   \<and> media_ids (stored demo_series (snd (put_reorder (Some demo_series) (Finite 0) (Finite 0)
        (Some [''a'', ''a''])))) 0 0 = [''a'', ''a'']
   \<and> \<not> distinct (media_ids (stored demo_series (snd (put_reorder (Some demo_series) (Finite 0)
        (Finite 0) (Some [''a'', ''a''])))) 0 0)"
proof -
  have h: "(0::nat) < length (seasons demo_series)"
    "(0::nat) < length (episodes (seasons demo_series ! 0))"
    by (simp_all add: demo_series_def)
  have at: "episode_at demo_series 0 0 = demo_episode"
    by (simp add: episode_at_def demo_series_def)
  have "media_ids (stored demo_series (snd (put_reorder (Some demo_series) (Finite (int 0))
          (Finite (int 0)) (Some [''a'', ''a''])))) 0 0
        = map m_id (reorderedMedia (episode_at demo_series 0 0) [''a'', ''a''])"
    using put_reorder_valid [OF h, of "[''a'', ''a'']"] media_ids_set_episode [OF h]
    by simp
  moreover have "map m_id (reorderedMedia demo_episode [''a'', ''a'']) = [''a'', ''a'']"
    by (simp add: reorderedMedia_ids) (simp add: demo_episode_def)
  moreover have "distinct (media_ids demo_series 0 0)"
    by (simp add: media_ids_def at) (simp add: demo_episode_def)
  ultimately show ?thesis by (simp add: at)
qed


text \<open>
  Claim C7, amended. In an episode whose media ids are unique and were issued by the
  database layer, the ids stay unique, and stay issued ids, after a media upload of any
  files, after a media delete with any id, and after a reorder whose list names no
  existing id more than once. The upload appends the next ids in the order of the files.
\<close>

theorem media_ids_stay_unique:
  fixes gk :: key_of_url and gu :: "string \<Rightarrow> string" and iv :: "string \<Rightarrow> bool"
    and s :: series and i j issued :: nat and mediaId :: string and ids :: "string list"
    and files :: "uploaded_file list"
  assumes "i < length (seasons s)" and "j < length (episodes (seasons s ! i))"
    and "distinct (media_ids s i j)" and "ids_issued issued s i j"
  defines "del \<equiv> delete_media gk (Some s) (Finite (int i)) (Finite (int j)) mediaId"
  defines "reo \<equiv> put_reorder (Some s) (Finite (int i)) (Finite (int j)) (Some ids)"
  defines "upl \<equiv> post_upload_media gu iv issued (Some s) (Finite (int i)) (Finite (int j)) files"
  shows "distinct (media_ids (stored s (snd del)) i j)
       \<and> ids_issued issued (stored s (snd del)) i j
       \<and> (distinct (filter (\<lambda>x. x \<in> set (media_ids s i j)) ids) \<longrightarrow>
            distinct (media_ids (stored s (snd reo)) i j))
       \<and> ids_issued issued (stored s (snd reo)) i j
       \<and> media_ids (stored s (snd (fst upl))) i j
            = media_ids s i j @ map objectId [issued..<issued + length files]
       \<and> distinct (media_ids (stored s (snd (fst upl))) i j)
       \<and> snd upl = issued + length files
       \<and> ids_issued (snd upl) (stored s (snd (fst upl))) i j"
proof -
  let ?e = "episode_at s i j"
  have d0: "distinct (map m_id (media ?e))" using assms(3) by (simp add: media_ids_def)
  have sub0: "set (media_ids s i j) \<subseteq> objectId ` {0..<issued}"
    using assms(4) by (simp add: ids_issued_iff)
  have del1: "distinct (media_ids (stored s (snd del)) i j)"
  proof (cases "findIndex (\<lambda>m. m_id m = mediaId) (media ?e) = -1")
    case True
    then show ?thesis using assms(1-3) by (simp add: del_def delete_media_valid)
  next
    case False
    then have "distinct (map m_id (splice1 (media ?e) (Finite (findIndex (\<lambda>m. m_id m = mediaId) (media ?e)))))"
      using findIndex_range [OF False] d0 by (intro distinct_splice1) simp_all
    with False show ?thesis
      using assms(1,2) by (simp add: del_def delete_media_valid Let_def media_ids_set_episode)
  qed
  have del2: "ids_issued issued (stored s (snd del)) i j"
    unfolding ids_issued_iff del_def
    using delete_media_ids_subset [OF assms(1,2), of gk mediaId] sub0 by blast
  have reo_ids: "media_ids (stored s (snd reo)) i j = filter (\<lambda>x. x \<in> set (media_ids s i j)) ids"
    unfolding reo_def by (rule reorder_media_ids [OF assms(1,2)])
  have reo1: "distinct (filter (\<lambda>x. x \<in> set (media_ids s i j)) ids) \<longrightarrow>
            distinct (media_ids (stored s (snd reo)) i j)"
    by (simp add: reo_ids)
  have reo2: "ids_issued issued (stored s (snd reo)) i j"
    unfolding ids_issued_iff reo_ids using sub0 by auto
  have upl0: "media_ids (stored s (snd (fst upl))) i j
            = media_ids s i j @ map objectId [issued..<issued + length files]"
    unfolding upl_def by (rule upload_media_ids [OF assms(1,2)])
  have upl1: "distinct (media_ids (stored s (snd (fst upl))) i j)"
    unfolding upl0 using assms(3) sub0 by (rule distinct_with_new_ids)
  have upl2: "snd upl = issued + length files"
    unfolding upl_def by (rule upload_issued_valid [OF assms(1,2)])
  have "objectId ` {0..<issued} \<subseteq> objectId ` {0..<issued + length files}" by auto
  with sub0 have upl3: "ids_issued (snd upl) (stored s (snd (fst upl))) i j"
    unfolding ids_issued_iff upl2 upl0 by auto
  from del1 del2 reo1 reo2 upl0 upl1 upl2 upl3 show ?thesis by blast
qed

lemma gallery_ids:
  "media_ids gallery_series 0 0 = [''0'', ''1'', ''2'']"
  "map objectId [0..<3] = [''0'', ''1'', ''2'']"
  "map objectId [3..<3 + length gallery_upload] = [''3'', ''4'']"
  by (simp add: media_ids_def episode_at_def gallery_series_def gallery_episode_def gallery_item_def,
      code_simp, code_simp)

theorem media_ids_stay_unique_witness:
  "(0::nat) < length (seasons gallery_series)
   \<and> (0::nat) < length (episodes (seasons gallery_series ! 0))
   \<and> distinct (media_ids gallery_series 0 0) \<and> ids_issued 3 gallery_series 0 0
   \<and> distinct (filter (\<lambda>x. x \<in> set (media_ids gallery_series 0 0)) [''2'', ''9'', ''0''])
   \<and> distinct (media_ids (stored gallery_series (snd (delete_media (getKeyFromUrl_spec demo_prefix)
         (Some gallery_series) (Finite 0) (Finite 0) ''1''))) 0 0)
   \<and> media_ids (stored gallery_series (snd (put_reorder (Some gallery_series) (Finite 0) (Finite 0)
         (Some [''2'', ''9'', ''0''])))) 0 0 = [''2'', ''0'']
   \<and> distinct (media_ids (stored gallery_series (snd (put_reorder (Some gallery_series) (Finite 0)
         (Finite 0) (Some [''2'', ''9'', ''0''])))) 0 0)
   \<and> media_ids (stored gallery_series (snd (fst (post_upload_media (getS3Url_spec demo_prefix)
         (\<lambda>n. False) 3 (Some gallery_series) (Finite 0) (Finite 0) gallery_upload)))) 0 0
       = [''0'', ''1'', ''2'', ''3'', ''4'']
   \<and> distinct (media_ids (stored gallery_series (snd (fst (post_upload_media
         (getS3Url_spec demo_prefix) (\<lambda>n. False) 3 (Some gallery_series) (Finite 0) (Finite 0)
         gallery_upload)))) 0 0)
   \<and> snd (post_upload_media (getS3Url_spec demo_prefix) (\<lambda>n. False) 3 (Some gallery_series)
         (Finite 0) (Finite 0) gallery_upload) = 5"
proof -
  have h: "(0::nat) < length (seasons gallery_series)"
    "(0::nat) < length (episodes (seasons gallery_series ! 0))"
    by (simp_all add: gallery_series_def)
  have d: "distinct (media_ids gallery_series 0 0)" by (simp add: gallery_ids)
  have iss: "ids_issued 3 gallery_series 0 0"
    by (simp add: ids_issued_def gallery_ids)
  have r: "filter (\<lambda>x. x \<in> set (media_ids gallery_series 0 0)) [''2'', ''9'', ''0''] = [''2'', ''0'']"
    by (simp add: gallery_ids)
  have len: "length gallery_upload = 2" by (simp add: gallery_upload_def)
  note t = media_ids_stay_unique [OF h d iss, where gk = "getKeyFromUrl_spec demo_prefix"
      and gu = "getS3Url_spec demo_prefix" and iv = "\<lambda>n. False" and mediaId = "''1''"
      and ids = "[''2'', ''9'', ''0'']" and files = gallery_upload]
  have rd: "distinct (filter (\<lambda>x. x \<in> set (media_ids gallery_series 0 0)) [''2'', ''9'', ''0''])"
    by (simp add: r)
  from t have t1: "distinct (media_ids (stored gallery_series (snd (delete_media
         (getKeyFromUrl_spec demo_prefix) (Some gallery_series) (Finite (int 0)) (Finite (int 0))
         ''1''))) 0 0)"
    by blast
  from t rd have t2: "distinct (media_ids (stored gallery_series (snd (put_reorder
         (Some gallery_series) (Finite (int 0)) (Finite (int 0)) (Some [''2'', ''9'', ''0'']))))
         0 0)"
    by blast
  from t have t3: "media_ids (stored gallery_series (snd (fst (post_upload_media
         (getS3Url_spec demo_prefix) (\<lambda>n. False) 3 (Some gallery_series) (Finite (int 0))
         (Finite (int 0)) gallery_upload)))) 0 0
       = media_ids gallery_series 0 0 @ map objectId [3..<3 + length gallery_upload]"
    by blast
  from t have t4: "distinct (media_ids (stored gallery_series (snd (fst (post_upload_media
         (getS3Url_spec demo_prefix) (\<lambda>n. False) 3 (Some gallery_series) (Finite (int 0))
         (Finite (int 0)) gallery_upload)))) 0 0)"
    by blast
  from t have t5: "snd (post_upload_media (getS3Url_spec demo_prefix) (\<lambda>n. False) 3
         (Some gallery_series) (Finite (int 0)) (Finite (int 0)) gallery_upload)
       = 3 + length gallery_upload"
    by blast
  have r2: "media_ids (stored gallery_series (snd (put_reorder (Some gallery_series)
         (Finite (int 0)) (Finite (int 0)) (Some [''2'', ''9'', ''0''])))) 0 0 = [''2'', ''0'']"
    using reorder_media_ids [OF h, of "[''2'', ''9'', ''0'']"] r by simp
  from t3 have t3': "media_ids (stored gallery_series (snd (fst (post_upload_media
         (getS3Url_spec demo_prefix) (\<lambda>n. False) 3 (Some gallery_series) (Finite (int 0))
         (Finite (int 0)) gallery_upload)))) 0 0 = [''0'', ''1'', ''2'', ''3'', ''4'']"
    by (simp only: gallery_ids append.simps)
  from t5 have t5': "snd (post_upload_media (getS3Url_spec demo_prefix) (\<lambda>n. False) 3
         (Some gallery_series) (Finite (int 0)) (Finite (int 0)) gallery_upload) = 5"
    by (simp add: len)
  from h d iss rd t1 t2 r2 t3' t4 t5' show ?thesis by simp
qed

section \<open>Bounds on seasons and episodes\<close>

text \<open>
  With an \<open>episodeCount\<close> that is absent, \<open>null\<close>, a boolean or an integer, every request
  keeps the counts within their bounds, and a request at a bound saves nothing.
\<close>

lemma js_index_ObjD:
  assumes "js_index xs n = Obj x"
  shows "\<exists>i. n = Finite (int i) \<and> i < length xs \<and> x = xs ! i"
proof -
  from assms obtain a where n: "n = Finite a" and a: "0 \<le> a" "a < int (length xs)"
    and x: "x = xs ! nat a"
    by (cases n) (auto split: if_splits)
  have "n = Finite (int (nat a))" using n a by simp
  moreover have "nat a < length xs" using a by linarith
  ultimately show ?thesis using x by blast
qed

lemma numEpisodes_numeric:
  assumes "v \<noteq> JNonNumeric"
  shows "\<exists>m. math_min (math_max (toNumber (or_default v 1)) (Finite 1)) (Finite 10) = Finite m
            \<and> 1 \<le> m \<and> m \<le> 10"
  using assms by (cases v) (auto simp: or_default_def)

lemma numEpisodes_integer:
  "math_min (math_max (toNumber (or_default (JNumber n) 1)) (Finite 1)) (Finite 10)
     = Finite (min (max n 1) 10)"
  by (simp add: or_default_def)

lemma post_season_full:
  "10 \<le> length (seasons s) \<Longrightarrow>
   post_season (Some s) v = (Json 400 (Error ''Maximum 10 seasons allowed''), [])"
  by (simp add: post_season_def)

lemma post_season_integer:
  assumes "length (seasons s) < 10"
  shows "post_season (Some s) (JNumber n) =
           (Json 200 (SuccessSeries (s\<lparr>seasons := seasons s @
              [\<lparr>season.title = Some (''Season '' @ show_nat (length (seasons s) + 1)),
                episodes = map new_episode [0..<nat (min (max n 1) 10)]\<rparr>]\<rparr>)),
            [Save (s\<lparr>seasons := seasons s @
              [\<lparr>season.title = Some (''Season '' @ show_nat (length (seasons s) + 1)),
                episodes = map new_episode [0..<nat (min (max n 1) 10)]\<rparr>]\<rparr>)])"
  using assms
  by (simp add: post_season_def numEpisodes_integer array_from_def Let_def del: math_min.simps math_max.simps toNumber.simps)

lemma list_all_remove_nth:
  "list_all P xs \<Longrightarrow> list_all P (take k xs @ drop (Suc k) xs)"
  by (auto simp: list_all_iff dest: in_set_takeD in_set_dropD)

lemma list_all_update: "list_all P xs \<Longrightarrow> P x \<Longrightarrow> list_all P (xs[k := x])"
  by (auto simp: list_all_iff dest!: subsetD [OF set_update_subset_insert])

lemma within_limits_post_season:
  assumes "within_limits s" and "v \<noteq> JNonNumeric"
  shows "within_limits (stored s (snd (post_season (Some s) v)))"
proof (cases "10 \<le> length (seasons s)")
  case True
  then show ?thesis using assms(1) by (simp add: post_season_full)
next
  case False
  from numEpisodes_numeric [OF assms(2)] obtain m
    where m: "math_min (math_max (toNumber (or_default v 1)) (Finite 1)) (Finite 10) = Finite m"
      and b: "1 \<le> m" "m \<le> 10"
    by blast
  have "length (array_from (Finite m) new_episode) = nat m" by (simp add: array_from_def)
  with b have "1 \<le> length (array_from (Finite m) new_episode)"
    "length (array_from (Finite m) new_episode) \<le> 10"
    by simp_all
  with False assms(1) show ?thesis
    by (simp add: post_season_def m Let_def within_limits_def season_within_limits_def)
qed

lemma within_limits_delete_season:
  assumes "within_limits s"
  shows "within_limits (stored s (snd (delete_season gk (Some s) n)))"
proof (cases "js_ge n (length (seasons s)) \<or> length (seasons s) \<le> 1")
  case True
  then show ?thesis using assms by (auto simp: delete_season_def)
next
  case False
  show ?thesis
  proof (cases "js_index (seasons s) n")
    case (Obj sn)
    then obtain i where i: "n = Finite (int i)" "i < length (seasons s)"
      by (auto dest: js_index_ObjD)
    define rest where "rest = take i (seasons s) @ drop (Suc i) (seasons s)"
    from i False have st: "stored s (snd (delete_season gk (Some s) n)) = s\<lparr>seasons := rest\<rparr>"
      by (simp add: delete_season_valid rest_def)
    have len: "length rest = length (seasons s) - 1"
      using i by (simp add: rest_def)
    have "list_all season_within_limits rest"
      unfolding rest_def using assms by (intro list_all_remove_nth) (simp add: within_limits_def)
    moreover have "1 \<le> length rest" "length rest \<le> 10"
      using False assms len by (auto simp: within_limits_def)
    ultimately show ?thesis by (simp add: st within_limits_def)
  next
    case Null
    with False assms show ?thesis by (simp add: delete_season_def)
  next
    case Undefined
    with False assms show ?thesis by (simp add: delete_season_def)
  qed
qed

lemma within_limits_set_season:
  assumes "within_limits s" and "season_within_limits sn"
  shows "within_limits (set_season s n sn)"
  using assms by (simp add: within_limits_def set_season_def list_all_update)

lemma within_limits_post_episode:
  assumes "within_limits s"
  shows "within_limits (stored s (snd (post_episode (Some s) n)))"
proof (cases "js_index (seasons s) n")
  case (Obj sn)
  then obtain i where i: "n = Finite (int i)" "i < length (seasons s)" "sn = seasons s ! i"
    by (auto dest: js_index_ObjD)
  then have "season_within_limits sn"
    using assms by (simp add: within_limits_def list_all_length)
  then have "season_within_limits (sn\<lparr>episodes := episodes sn @ [new_episode (length (episodes sn))]\<rparr>)"
    if "\<not> 10 \<le> length (episodes sn)"
    using that by (simp add: season_within_limits_def)
  then show ?thesis
    using assms Obj by (simp add: post_episode_def Let_def within_limits_set_season)
next
  case Null
  with assms show ?thesis by (simp add: post_episode_def)
next
  case Undefined
  with assms show ?thesis by (simp add: post_episode_def)
qed

lemma within_limits_delete_episode:
  assumes "within_limits s"
  shows "within_limits (stored s (snd (delete_episode gk (Some s) n k)))"
proof (cases "js_index (seasons s) n")
  case (Obj sn)
  then obtain i where i: "n = Finite (int i)" "i < length (seasons s)" "sn = seasons s ! i"
    by (auto dest: js_index_ObjD)
  then have sn: "season_within_limits sn"
    using assms by (simp add: within_limits_def list_all_length)
  show ?thesis
  proof (cases "js_index (episodes sn) k")
    case ep: (Obj e)
    then obtain j where j: "k = Finite (int j)" "j < length (episodes sn)"
      by (auto dest: js_index_ObjD)
    have "season_within_limits (sn\<lparr>episodes := splice1 (episodes sn) k\<rparr>)"
      if "\<not> length (episodes sn) \<le> 1"
      using that sn j by (auto simp: season_within_limits_def splice1_valid)
    then show ?thesis
      using assms Obj ep by (simp add: delete_episode_def Let_def within_limits_set_season)
  next
    case Null
    with assms Obj show ?thesis by (simp add: delete_episode_def)
  next
    case Undefined
    with assms Obj show ?thesis by (simp add: delete_episode_def)
  qed
next
  case Null
  with assms show ?thesis by (simp add: delete_episode_def)
next
  case Undefined
  with assms show ?thesis by (simp add: delete_episode_def)
qed

lemma within_limits_serve:
  "within_limits s \<Longrightarrow> numeric_count r \<Longrightarrow> within_limits (stored s (snd (serve gk s r)))"
  by (cases r)
     (simp_all add: within_limits_post_season within_limits_delete_season
        within_limits_post_episode within_limits_delete_episode)

lemma within_limits_run_requests:
  "within_limits s \<Longrightarrow> list_all numeric_count rs \<Longrightarrow> within_limits (run_requests gk s rs)"
  by (induction rs arbitrary: s) (simp_all add: within_limits_serve)


lemma boundary_requests_rejected:
  "length (seasons s) \<le> 1 \<Longrightarrow> snd (delete_season gk (Some s) n) = []"
  "10 \<le> length (seasons s) \<Longrightarrow> snd (post_season (Some s) v) = []"
  "js_index (seasons s) n = Obj sn \<Longrightarrow> length (episodes sn) \<le> 1 \<Longrightarrow>
     snd (delete_episode gk (Some s) n k) = []"
  "js_index (seasons s) n = Obj sn \<Longrightarrow> 10 \<le> length (episodes sn) \<Longrightarrow>
     snd (post_episode (Some s) n) = []"
  by (simp_all add: delete_season_def post_season_def delete_episode_def post_episode_def)

lemma show_nat_2: "show_nat (Suc (Suc 0)) = ''2''"
  by code_simp


text \<open>
  Claim C6. Adding a season is to append a season of between 1 and 10 new episodes for
  every requested \<open>episodeCount\<close>. For a count that does not convert to a number (a string
  such as "abc", an object) \<open>Math.max\<close> and \<open>Math.min\<close> give \<open>NaN\<close>, \<open>Array.from\<close> reads
  the length \<open>NaN\<close> as 0, and the season that is saved has no episode.
\<close>

theorem post_season_non_numeric_count:
  "post_season (Some demo_series) JNonNumeric =
     (Json 200 (SuccessSeries (demo_series\<lparr>seasons := seasons demo_series @
        [\<lparr>season.title = Some ''Season 2'', episodes = []\<rparr>]\<rparr>)),
      [Save (demo_series\<lparr>seasons := seasons demo_series @
        [\<lparr>season.title = Some ''Season 2'', episodes = []\<rparr>]\<rparr>)])"
proof -
  have "length (seasons demo_series) = 1" by (simp add: demo_series_def)
  then show ?thesis
    by (simp add: post_season_def or_default_def array_from_def show_nat_2 Let_def)
qed


text \<open>
  Claim C1. After any sequence of requests the counts are to stay within their bounds.
  A series within the bounds leaves them with one request: adding a season with an
  \<open>episodeCount\<close> that does not convert to a number saves a season without episodes.
\<close>

theorem limits_broken_by_non_numeric_count:
  "within_limits demo_series
   \<and> map (\<lambda>sn. length (episodes sn))
       (seasons (run_requests (getKeyFromUrl_spec demo_prefix) demo_series [AddSeason JNonNumeric]))
     = [1, 0]
   \<and> \<not> within_limits
       (run_requests (getKeyFromUrl_spec demo_prefix) demo_series [AddSeason JNonNumeric])"
proof -
  have l: "length (seasons demo_series) = 1" by (simp add: demo_series_def)
  have "run_requests (getKeyFromUrl_spec demo_prefix) demo_series [AddSeason JNonNumeric]
      = demo_series\<lparr>seasons := seasons demo_series @
          [\<lparr>season.title = Some ''Season 2'', episodes = []\<rparr>]\<rparr>"
    using l by (simp add: post_season_def or_default_def array_from_def show_nat_2 Let_def)
  then show ?thesis
    by (simp add: within_limits_def season_within_limits_def demo_series_def)
qed

end
